theory Spec2Isabelle
  imports Complex_Main
begin

section \<open>Tokens\<close>

text \<open>
  A region is a vector of \<open>int32_t\<close> tokens: a signed surface reference, or one of five
  operator codes. Tokens are modelled as \<open>int\<close>; every token that \<open>tokenize\<close> produces
  lies in the \<open>int32_t\<close> range, because \<open>std::stoi\<close> refuses anything else. Negation
  and absolute value of a token are the exact ones: they overflow on the smallest
  \<open>int32_t\<close> only, which refers to no surface.
\<close>

text \<open>
  Modelled from the spec: the five operator codes, which \<open>cell.h\<close> declares and
  \<open>cell.cpp\<close> only uses. They are sentinel integers above every surface reference, with
  \<open>UNION < INTERSECTION < COMPLEMENT\<close> below the two parentheses; here they are the five
  largest \<open>int32_t\<close> values. The specification lists \<open>LEFT_PAREN\<close> below
  \<open>RIGHT_PAREN\<close>; \<open>generate_rpn\<close> needs the opposite order, and the model follows the
  code: its branch \<open>token < OP_RIGHT_PAREN\<close> is the one for the "regular operators
  union, intersection, complement", and the test \<open>token == OP_LEFT_PAREN\<close> comes only
  after it.
\<close>

definition OP_LEFT_PAREN :: int where
  "OP_LEFT_PAREN = 2147483647"

definition OP_RIGHT_PAREN :: int where
  "OP_RIGHT_PAREN = 2147483646"

definition OP_COMPLEMENT :: int where
  "OP_COMPLEMENT = 2147483645"

definition OP_INTERSECTION :: int where
  "OP_INTERSECTION = 2147483644"

definition OP_UNION :: int where
  "OP_UNION = 2147483643"

text \<open>
  \<open>fatal_error\<close> ends the program with a message; an uncaught exception of \<open>std::stoi\<close>
  ends it too. Both are error values here. \<open>OutOfBoundsAccess\<close> stands for a read or
  write outside an array or vector, which C++ leaves undefined.
\<close>

datatype error =
    InvalidCharacter char
  | MismatchedParentheses int
  | StoiInvalidArgument
  | StoiOutOfRange
  | OutOfBoundsAccess

section \<open>The tokenizer\<close>

definition isdigit :: "char \<Rightarrow> bool" where
  "isdigit c = (c \<in> set ''0123456789'')"

text \<open>\<open>std::isspace\<close> in the C locale: space, and the control characters 9 to 13.\<close>

definition isspace :: "char \<Rightarrow> bool" where
  "isspace c = (c = CHR '' '' \<or> c \<in> set [CHR 0x09, CHR 0x0A, CHR 0x0B, CHR 0x0C, CHR 0x0D])"

text \<open>The value of a string of decimal digits, most significant digit first.\<close>

fun decimal :: "int \<Rightarrow> string \<Rightarrow> int" where
  "decimal acc [] = acc"
| "decimal acc (c # cs) = decimal (10 * acc + (of_char c - 48)) cs"

text \<open>
  \<open>std::stoi\<close> on the substrings the tokenizer cuts out: an optional sign, then the
  digits that follow. Without a digit it throws \<open>std::invalid_argument\<close>, with a value
  outside \<open>int\<close> it throws \<open>std::out_of_range\<close>.
\<close>

definition stoi :: "string \<Rightarrow> error + int" where
  "stoi s =
     (let neg = (s \<noteq> [] \<and> hd s = CHR ''-'');
          body = (if s \<noteq> [] \<and> (hd s = CHR ''-'' \<or> hd s = CHR ''+'') then tl s else s);
          ds = takeWhile isdigit body
      in if ds = [] then Inl StoiInvalidArgument
         else let v = (if neg then - decimal 0 ds else decimal 0 ds)
              in if v < - 2147483648 \<or> 2147483647 < v then Inl StoiOutOfRange else Inr v)"

text \<open>
  The first loop of \<open>tokenize\<close>. The source walks an index \<open>i\<close> through \<open>region_spec\<close>;
  the model walks the suffix that starts at \<open>i\<close>. \<open>tokens\<close> is the vector built so far.
  The indices are natural numbers: a string too long for the \<open>int\<close> index is outside
  the model.
  For a halfspace, \<open>j\<close> runs over the digits after position \<open>i\<close>, the substring from
  \<open>i\<close> to \<open>j\<close> goes to \<open>std::stoi\<close>, and the walk goes on at \<open>j\<close>.
\<close>

function scan_tokens :: "string \<Rightarrow> int list \<Rightarrow> error + int list" where
  "scan_tokens [] tokens = Inr tokens"
| "scan_tokens (c # cs) tokens =
     (if c = CHR ''('' then scan_tokens cs (tokens @ [OP_LEFT_PAREN])
      else if c = CHR '')'' then scan_tokens cs (tokens @ [OP_RIGHT_PAREN])
      else if c = CHR ''|'' then scan_tokens cs (tokens @ [OP_UNION])
      else if c = CHR ''~'' then scan_tokens cs (tokens @ [OP_COMPLEMENT])
      else if c = CHR ''-'' \<or> c = CHR ''+'' \<or> isdigit c then
        (case stoi (c # takeWhile isdigit cs) of
           Inl e \<Rightarrow> Inl e
         | Inr v \<Rightarrow> scan_tokens (dropWhile isdigit cs) (tokens @ [v]))
      else if isspace c then scan_tokens cs tokens
      else Inl (InvalidCharacter c))"
  by pat_completeness auto
termination
  by (relation "measure (\<lambda>(s, tokens). length s)")
     (auto simp: length_dropWhile_le le_imp_less_Suc)

definition left_compat :: "int \<Rightarrow> bool" where
  "left_compat t = (t < OP_UNION \<or> t = OP_RIGHT_PAREN)"

definition right_compat :: "int \<Rightarrow> bool" where
  "right_compat t = (t < OP_UNION \<or> t = OP_LEFT_PAREN \<or> t = OP_COMPLEMENT)"

text \<open>
  The bound of the second loop is \<open>tokens.size()-1\<close>, computed in the unsigned type
  \<open>size_t\<close>: for an empty vector it wraps around to the largest value of the type
  (\<open>2^64 - 1\<close> where \<open>size_t\<close> has 64 bits). For a vector with an element nothing wraps.
\<close>

definition size_minus_one :: "int list \<Rightarrow> int" where
  "size_minus_one tokens = (if tokens = [] then 2 ^ 64 - 1 else int (length tokens) - 1)"

text \<open>
  The second loop of \<open>tokenize\<close>, from index \<open>i\<close>. Its body reads \<open>tokens[i]\<close> and
  \<open>tokens[i+1]\<close>; a read at or past \<open>tokens.size()\<close> is \<open>OutOfBoundsAccess\<close>.
  \<open>tokens.insert(tokens.begin()+i+1, OP_INTERSECTION)\<close> puts the new token before
  position \<open>i+1\<close>.
\<close>

function insert_intersections :: "nat \<Rightarrow> int list \<Rightarrow> error + int list" where
  "insert_intersections i tokens =
     (if int i < size_minus_one tokens then
        (if length tokens \<le> i + 1 then Inl OutOfBoundsAccess
         else if left_compat (tokens ! i) \<and> right_compat (tokens ! (i + 1)) then
           insert_intersections (i + 1)
             (take (i + 1) tokens @ OP_INTERSECTION # drop (i + 1) tokens)
         else insert_intersections (i + 1) tokens)
      else Inr tokens)"
  by pat_completeness auto
termination
proof (relation "measure (\<lambda>(i, tokens).
          2 * (length tokens - i) + (if left_compat (tokens ! i) then 1 else 0))",
       goal_cases)
  case 1
  show ?case by simp
next
  case (2 i tokens)
  then show ?case
    by (simp add: nth_append left_compat_def OP_UNION_def OP_INTERSECTION_def
        OP_RIGHT_PAREN_def min_def)
next
  case (3 i tokens)
  then show ?case by (auto split: if_splits)
qed

definition tokenize :: "string \<Rightarrow> error + int list" where
  "tokenize region_spec =
     (if region_spec = [] then Inr []
      else case scan_tokens region_spec [] of
             Inl e \<Rightarrow> Inl e
           | Inr tokens \<Rightarrow> insert_intersections 0 tokens)"

section \<open>The compiler to postfix form\<close>

text \<open>
  The operator stack is a list whose head is \<open>stack.back()\<close>; \<open>rpn\<close> grows at its end,
  as the output vector does.

  The inner loop of the branch for union, intersection and complement.
\<close>

fun pop_operators :: "int \<Rightarrow> int list \<Rightarrow> int list \<Rightarrow> int list \<times> int list" where
  "pop_operators token rpn [] = (rpn, [])"
| "pop_operators token rpn (op # stack) =
     (if op < OP_RIGHT_PAREN \<and>
         ((token = OP_COMPLEMENT \<and> token < op) \<or> (token \<noteq> OP_COMPLEMENT \<and> token \<le> op))
      then pop_operators token (rpn @ [op]) stack
      else (rpn, op # stack))"

text \<open>
  The loop of the branch for a right parenthesis:
  \<^verbatim>\<open>for (auto it = stack.rbegin(); *it != OP_LEFT_PAREN; it++) {
    if (it == stack.rend()) { ... fatal_error(err_msg); }
    rpn.push_back(stack.back());
    stack.pop_back();
  }
  stack.pop_back();\<close>
  After each \<open>pop_back\<close> and \<open>it++\<close> the iterator is at the new last element, so \<open>*it\<close>
  is the top of the stack. The loop condition reads \<open>*it\<close> before the body compares
  \<open>it\<close> with \<open>stack.rend()\<close>: on an exhausted stack that is a read before the first
  element of the vector. The comparison in the body is kept as the source has it.
\<close>

fun pop_to_left_paren :: "int \<Rightarrow> int list \<Rightarrow> int list \<Rightarrow> error + int list \<times> int list" where
  "pop_to_left_paren cell_id rpn [] = Inl OutOfBoundsAccess"
| "pop_to_left_paren cell_id rpn (op # stack) =
     (if op \<noteq> OP_LEFT_PAREN then
        (if op # stack = [] then Inl (MismatchedParentheses cell_id)
         else pop_to_left_paren cell_id (rpn @ [op]) stack)
      else Inr (rpn, stack))"

text \<open>The loop after the last token.\<close>

fun pop_remaining :: "int \<Rightarrow> int list \<Rightarrow> int list \<Rightarrow> error + int list" where
  "pop_remaining cell_id rpn [] = Inr rpn"
| "pop_remaining cell_id rpn (op # stack) =
     (if op \<ge> OP_RIGHT_PAREN then Inl (MismatchedParentheses cell_id)
      else pop_remaining cell_id (rpn @ [op]) stack)"

fun rpn_loop :: "int \<Rightarrow> int list \<Rightarrow> int list \<Rightarrow> int list \<Rightarrow> error + int list" where
  "rpn_loop cell_id [] rpn stack = pop_remaining cell_id rpn stack"
| "rpn_loop cell_id (token # infix) rpn stack =
     (if token < OP_UNION then rpn_loop cell_id infix (rpn @ [token]) stack
      else if token < OP_RIGHT_PAREN then
        (case pop_operators token rpn stack of
           (rpn', stack') \<Rightarrow> rpn_loop cell_id infix rpn' (token # stack'))
      else if token = OP_LEFT_PAREN then rpn_loop cell_id infix rpn (token # stack)
      else
        (case pop_to_left_paren cell_id rpn stack of
           Inl e \<Rightarrow> Inl e
         | Inr (rpn', stack') \<Rightarrow> rpn_loop cell_id infix rpn' stack'))"

definition generate_rpn :: "int \<Rightarrow> int list \<Rightarrow> error + int list" where
  "generate_rpn cell_id infix = rpn_loop cell_id infix [] []"

section \<open>Cells\<close>

text \<open>
  The fields of \<open>Cell\<close> that the functions below read or write. The name, the
  translation, the rotation and the instance counters are neither read nor written by
  them and are left out. \<open>id'\<close> is the field \<open>id\<close>, \<open>fill_type\<close> the field \<open>type\<close>.
  An entry of \<open>sqrtkT\<close> is a double: \<open>Some x\<close> is the number \<open>x\<close>, \<open>None\<close> is
  not-a-number.
\<close>

record cell =
  id' :: int
  fill_type :: int
  universe :: int
  fill :: int
  material :: "int list"
  sqrtkT :: "real option list"
  region :: "int list"
  rpn :: "int list"
  simple :: bool

text \<open>
  Modelled from the spec: the codes of the three fill kinds and the sentinel of a void
  material, constants that \<open>cell.cpp\<close> uses and does not declare. Only that they are
  four fixed integers, the fill kinds distinct, is used.
\<close>

definition FILL_MATERIAL :: int where
  "FILL_MATERIAL = 1"

definition FILL_UNIVERSE :: int where
  "FILL_UNIVERSE = 2"

definition FILL_LATTICE :: int where
  "FILL_LATTICE = 3"

definition MATERIAL_VOID :: int where
  "MATERIAL_VOID = - 1"

subsection \<open>The part of the constructor that compiles the region\<close>

text \<open>
  \<open>surface_map\<close> takes a user's surface id to the index of the surface. \<open>copysign\<close> gives
  its first argument the sign of the second.
\<close>

definition copysign :: "int \<Rightarrow> int \<Rightarrow> int" where
  "copysign x y = (if y < 0 then - \<bar>x\<bar> else \<bar>x\<bar>)"

definition bind_surfaces :: "(int \<Rightarrow> int) \<Rightarrow> int list \<Rightarrow> int list" where
  "bind_surfaces surface_map region_tokens =
     map (\<lambda>r. if r < OP_UNION then copysign (surface_map \<bar>r\<bar> + 1) r else r) region_tokens"

fun simple_flag :: "int list \<Rightarrow> bool" where
  "simple_flag [] = True"
| "simple_flag (token # rpn_tokens) =
     (if token = OP_COMPLEMENT \<or> token = OP_UNION then False else simple_flag rpn_tokens)"

text \<open>
  The constructor from \<open>tokenize(region_spec)\<close> to the simple flag: the cell \<open>c\<close> with
  its region, its postfix form and its flag filled in.
\<close>

definition compile_region :: "(int \<Rightarrow> int) \<Rightarrow> string \<Rightarrow> cell \<Rightarrow> error + cell" where
  "compile_region surface_map region_spec c =
     (case tokenize region_spec of
        Inl e \<Rightarrow> Inl e
      | Inr tokens \<Rightarrow>
          (let region_tokens = bind_surfaces surface_map tokens
           in case generate_rpn (id' c) region_tokens of
                Inl e \<Rightarrow> Inl e
              | Inr rpn_tokens \<Rightarrow>
                  Inr (c\<lparr>region := region_tokens, rpn := rpn_tokens,
                         simple := simple_flag rpn_tokens\<rparr>)))"

subsection \<open>Containment\<close>

text \<open>
  The surface library is a parameter: \<open>sense k r u\<close> stands for
  \<open>global_surfaces[k]->sense(r, u)\<close>, for positions and directions of any type. The
  table is a function of the index; an operand of a compiled cell refers to a surface of
  the table, and an index outside it is not told apart.
\<close>

fun contains_simple ::
  "(int \<Rightarrow> 'p \<Rightarrow> 'd \<Rightarrow> bool) \<Rightarrow> int list \<Rightarrow> 'p \<Rightarrow> 'd \<Rightarrow> int \<Rightarrow> bool" where
  "contains_simple sense [] r u on_surface = True"
| "contains_simple sense (token # rpn_tokens) r u on_surface =
     (if token < OP_UNION then
        (if token = on_surface then contains_simple sense rpn_tokens r u on_surface
         else if - token = on_surface then False
         else if sense (\<bar>token\<bar> - 1) r u \<noteq> (token > 0) then False
         else contains_simple sense rpn_tokens r u on_surface)
      else contains_simple sense rpn_tokens r u on_surface)"

text \<open>
  The loop of \<open>contains_complex\<close>. The array \<open>stack\<close> with its index \<open>i_stack\<close> is the
  list of the entries \<open>stack[i_stack], \<dots>, stack[0]\<close>: its head is the top, its length
  is \<open>i_stack + 1\<close>. A binary operator on fewer than two entries, or a complement on
  none, reads and writes \<open>stack[-1]\<close>.
\<close>

fun complex_loop ::
  "(int \<Rightarrow> 'p \<Rightarrow> 'd \<Rightarrow> bool) \<Rightarrow> int list \<Rightarrow> 'p \<Rightarrow> 'd \<Rightarrow> int \<Rightarrow> bool list
     \<Rightarrow> error + bool list" where
  "complex_loop sense [] r u on_surface stack = Inr stack"
| "complex_loop sense (token # rpn_tokens) r u on_surface stack =
     (if token = OP_UNION then
        (case stack of
           b # a # rest \<Rightarrow> complex_loop sense rpn_tokens r u on_surface ((a \<or> b) # rest)
         | _ \<Rightarrow> Inl OutOfBoundsAccess)
      else if token = OP_INTERSECTION then
        (case stack of
           b # a # rest \<Rightarrow> complex_loop sense rpn_tokens r u on_surface ((a \<and> b) # rest)
         | _ \<Rightarrow> Inl OutOfBoundsAccess)
      else if token = OP_COMPLEMENT then
        (case stack of
           b # rest \<Rightarrow> complex_loop sense rpn_tokens r u on_surface ((\<not> b) # rest)
         | [] \<Rightarrow> Inl OutOfBoundsAccess)
      else if token = on_surface then
        complex_loop sense rpn_tokens r u on_surface (True # stack)
      else if - token = on_surface then
        complex_loop sense rpn_tokens r u on_surface (False # stack)
      else
        complex_loop sense rpn_tokens r u on_surface
          ((sense (\<bar>token\<bar> - 1) r u = (token > 0)) # stack))"

definition contains_complex ::
  "(int \<Rightarrow> 'p \<Rightarrow> 'd \<Rightarrow> bool) \<Rightarrow> int list \<Rightarrow> 'p \<Rightarrow> 'd \<Rightarrow> int \<Rightarrow> error + bool" where
  "contains_complex sense rpn_tokens r u on_surface =
     (case complex_loop sense rpn_tokens r u on_surface [] of
        Inl e \<Rightarrow> Inl e
      | Inr stack \<Rightarrow> if length stack = 1 then Inr (hd stack) else Inr True)"

definition contains ::
  "(int \<Rightarrow> 'p \<Rightarrow> 'd \<Rightarrow> bool) \<Rightarrow> cell \<Rightarrow> 'p \<Rightarrow> 'd \<Rightarrow> int \<Rightarrow> error + bool" where
  "contains sense c r u on_surface =
     (if simple c then Inr (contains_simple sense (rpn c) r u on_surface)
      else contains_complex sense (rpn c) r u on_surface)"

subsection \<open>Distance to the boundary\<close>

text \<open>
  \<open>surface_distance k r u coincident\<close> stands for
  \<open>global_surfaces[k]->distance(r, u, coincident)\<close>. A \<open>double\<close> is modelled by the real
  number it holds: the comparisons of the program are the comparisons of these numbers.
  The quotient \<open>std::abs(d - min_dist) / min_dist\<close> is the exact one here and the
  rounded one in the program; for \<open>min_dist\<close> zero and \<open>d\<close> below it, the program's
  quotient is infinite and passes the test. Not-a-number is outside the model.

  \<open>INFTY\<close> and \<open>FP_PRECISION\<close> are constants that \<open>cell.cpp\<close> uses and does not declare:
  they are parameters. The initial \<open>i_surf\<close> is the largest \<open>int32_t\<close>.
\<close>

text \<open>
  The test \<open>std::abs(d - min_dist) / min_dist >= FP_PRECISION\<close>, which the program
  makes only for \<open>d < min_dist\<close>.
\<close>

definition relative_gap :: "real \<Rightarrow> real \<Rightarrow> real \<Rightarrow> bool" where
  "relative_gap d min_dist FP_PRECISION =
     (if min_dist = 0 then True else \<bar>d - min_dist\<bar> / min_dist \<ge> FP_PRECISION)"

fun distance_loop ::
  "real \<Rightarrow> (int \<Rightarrow> 'p \<Rightarrow> 'd \<Rightarrow> bool \<Rightarrow> real) \<Rightarrow> int list \<Rightarrow> 'p \<Rightarrow> 'd \<Rightarrow> int
     \<Rightarrow> real \<times> int \<Rightarrow> real \<times> int" where
  "distance_loop FP_PRECISION surface_distance [] r u on_surface (min_dist, i_surf) =
     (min_dist, i_surf)"
| "distance_loop FP_PRECISION surface_distance (token # rpn_tokens) r u on_surface
       (min_dist, i_surf) =
     (if token \<ge> OP_UNION then
        distance_loop FP_PRECISION surface_distance rpn_tokens r u on_surface
          (min_dist, i_surf)
      else
        (let coincident = (token = on_surface);
             d = surface_distance (\<bar>token\<bar> - 1) r u coincident
         in if d < min_dist then
              (if relative_gap d min_dist FP_PRECISION then
                 distance_loop FP_PRECISION surface_distance rpn_tokens r u on_surface
                   (d, - token)
               else
                 distance_loop FP_PRECISION surface_distance rpn_tokens r u on_surface
                   (min_dist, i_surf))
            else
              distance_loop FP_PRECISION surface_distance rpn_tokens r u on_surface
                (min_dist, i_surf)))"

definition distance ::
  "real \<Rightarrow> real \<Rightarrow> (int \<Rightarrow> 'p \<Rightarrow> 'd \<Rightarrow> bool \<Rightarrow> real) \<Rightarrow> cell \<Rightarrow> 'p \<Rightarrow> 'd \<Rightarrow> int
     \<Rightarrow> real \<times> int" where
  "distance INFTY FP_PRECISION surface_distance c r u on_surface =
     distance_loop FP_PRECISION surface_distance (rpn c) r u on_surface (INFTY, 2147483647)"

section \<open>The C API\<close>

text \<open>
  The global state the three functions touch: the cells, the number of materials
  (\<open>global_materials.size()\<close>) and the message buffer \<open>openmc_err_msg\<close>.
\<close>

record geometry =
  global_cells :: "cell list"
  n_materials :: nat
  openmc_err_msg :: string

text \<open>
  Modelled from the spec: the error code \<open>OPENMC_E_OUT_OF_BOUNDS\<close> of an index out of
  bounds, declared outside \<open>cell.cpp\<close>; only that it is not the 0 of success is used.
\<close>

definition OPENMC_E_OUT_OF_BOUNDS :: int where
  "OPENMC_E_OUT_OF_BOUNDS = - 3"

text \<open>
  \<open>openmc_cell_get_fill\<close> returns its code and, when it wrote them, the values of
  \<open>*type\<close>, \<open>*indices\<close> (the array pointed to) and \<open>*n\<close>.
\<close>

definition openmc_cell_get_fill ::
  "geometry \<Rightarrow> int \<Rightarrow> int \<times> (int \<times> int list \<times> int) option \<times> geometry" where
  "openmc_cell_get_fill g index =
     (if index \<ge> 1 \<and> index \<le> int (length (global_cells g)) then
        (let c = global_cells g ! nat (index - 1)
         in if fill_type c = FILL_MATERIAL
            then (0, Some (fill_type c, material c, int (length (material c))), g)
            else (0, Some (fill_type c, [fill c], 1), g))
      else (OPENMC_E_OUT_OF_BOUNDS, None,
            g\<lparr>openmc_err_msg := ''Index in cells array is out of bounds.''\<rparr>))"

text \<open>
  The loop of \<open>openmc_cell_set_fill\<close> over \<open>indices[0], \<dots>, indices[n-1]\<close>, on the
  material vector built so far. It returns whether it ran to its end, and the vector as
  it stands when the loop is left.
\<close>

fun push_materials :: "nat \<Rightarrow> int list \<Rightarrow> int list \<Rightarrow> bool \<times> int list" where
  "push_materials n_mat [] mat = (True, mat)"
| "push_materials n_mat (i_mat # indices) mat =
     (if i_mat = MATERIAL_VOID then push_materials n_mat indices (mat @ [MATERIAL_VOID])
      else if i_mat \<ge> 1 \<and> i_mat \<le> int n_mat then
        push_materials n_mat indices (mat @ [i_mat - 1])
      else (False, mat))"

text \<open>
  \<open>indices\<close> is the caller's array, which holds at least \<open>n\<close> entries.
\<close>

definition openmc_cell_set_fill ::
  "geometry \<Rightarrow> int \<Rightarrow> int \<Rightarrow> int \<Rightarrow> int list \<Rightarrow> int \<times> geometry" where
  "openmc_cell_set_fill g index type n indices =
     (if index \<ge> 1 \<and> index \<le> int (length (global_cells g)) then
        (let k = nat (index - 1); c = global_cells g ! k
         in if type = FILL_MATERIAL then
              (case push_materials (n_materials g) (take (nat n) indices) [] of
                 (True, mat) \<Rightarrow>
                   (0, g\<lparr>global_cells :=
                           (global_cells g)[k := c\<lparr>fill_type := FILL_MATERIAL, material := mat\<rparr>]\<rparr>)
               | (False, mat) \<Rightarrow>
                   (OPENMC_E_OUT_OF_BOUNDS,
                    g\<lparr>global_cells :=
                        (global_cells g)[k := c\<lparr>fill_type := FILL_MATERIAL, material := mat\<rparr>],
                      openmc_err_msg := ''Index in materials array is out of bounds.''\<rparr>))
            else if type = FILL_UNIVERSE then
              (0, g\<lparr>global_cells := (global_cells g)[k := c\<lparr>fill_type := FILL_UNIVERSE\<rparr>]\<rparr>)
            else
              (0, g\<lparr>global_cells := (global_cells g)[k := c\<lparr>fill_type := FILL_LATTICE\<rparr>]\<rparr>))
      else (OPENMC_E_OUT_OF_BOUNDS,
            g\<lparr>openmc_err_msg := ''Index in cells array is out of bounds.''\<rparr>))"

text \<open>\<open>std::sqrt\<close>: not-a-number for a negative argument, the square root otherwise.\<close>

definition std_sqrt :: "real \<Rightarrow> real option" where
  "std_sqrt x = (if x < 0 then None else Some (sqrt x))"

text \<open>
  \<open>instance\<close> is a pointer: \<open>None\<close> is the null pointer, \<open>Some i\<close> points to \<open>i\<close>.
  \<open>K_BOLTZMANN\<close> is a constant declared outside \<open>cell.cpp\<close> and a parameter here.
\<close>

definition openmc_cell_set_temperature ::
  "real \<Rightarrow> geometry \<Rightarrow> int \<Rightarrow> real \<Rightarrow> int option \<Rightarrow> int \<times> geometry" where
  "openmc_cell_set_temperature K_BOLTZMANN g index T instance =
     (if index \<ge> 1 \<and> index \<le> int (length (global_cells g)) then
        (let k = nat (index - 1); c = global_cells g ! k
         in case instance of
              Some i \<Rightarrow>
                if i \<ge> 0 \<and> i < int (length (sqrtkT c)) then
                  (0, g\<lparr>global_cells :=
                          (global_cells g)[k := c\<lparr>sqrtkT :=
                             (sqrtkT c)[nat i := std_sqrt (K_BOLTZMANN * T)]\<rparr>]\<rparr>)
                else
                  (OPENMC_E_OUT_OF_BOUNDS,
                   g\<lparr>openmc_err_msg := ''Distribcell instance is out of bounds.''\<rparr>)
            | None \<Rightarrow>
                (0, g\<lparr>global_cells :=
                        (global_cells g)[k := c\<lparr>sqrtkT :=
                           map (\<lambda>T'. std_sqrt (K_BOLTZMANN * T)) (sqrtkT c)\<rparr>]\<rparr>))
      else (OPENMC_E_OUT_OF_BOUNDS,
            g\<lparr>openmc_err_msg := ''Index in cells array is out of bounds.''\<rparr>))"

section \<open>Reference definitions\<close>

text \<open>
  The definitions of this section follow the words of the specification. The theorems
  compare them with the functions above.
\<close>

subsection \<open>Implicit intersection\<close>

text \<open>
  The second pass as the specification words it: between two adjacent tokens, the left
  one left-compatible and the right one right-compatible, there is an \<open>INTERSECTION\<close>.
\<close>

fun implicit_intersections :: "int list \<Rightarrow> int list" where
  "implicit_intersections (a # b # ts) =
     (if left_compat a \<and> right_compat b
      then a # OP_INTERSECTION # implicit_intersections (b # ts)
      else a # implicit_intersections (b # ts))"
| "implicit_intersections ts = ts"

text \<open>The sequence \<open>s\<^sub>1, INTERSECTION, s\<^sub>2, INTERSECTION, \<dots>, s\<^sub>n\<close>.\<close>

fun with_intersections :: "int list \<Rightarrow> int list" where
  "with_intersections (a # b # ss) = a # OP_INTERSECTION # with_intersections (b # ss)"
| "with_intersections ss = ss"

text \<open>
  A whitespace-separated list of integers is a list of items, each a run of whitespace
  followed by a literal: a sign or a digit, then digits. \<open>denotes item s\<close> says that the
  item's literal is read as \<open>s\<close>.
\<close>

definition is_literal :: "string \<Rightarrow> bool" where
  "is_literal lit =
     (lit \<noteq> [] \<and> (hd lit = CHR ''-'' \<or> hd lit = CHR ''+'' \<or> isdigit (hd lit)) \<and>
      list_all isdigit (tl lit))"

fun spaced :: "(string \<times> string) list \<Rightarrow> string" where
  "spaced [] = []"
| "spaced ((ws, lit) # items) = ws @ lit @ spaced items"

definition denotes :: "string \<times> string \<Rightarrow> int \<Rightarrow> bool" where
  "denotes item s =
     (list_all isspace (fst item) \<and> is_literal (snd item) \<and> stoi (snd item) = Inr s)"

subsection \<open>Balance of parentheses\<close>

text \<open>
  The number of parentheses open after a sequence of tokens, from \<open>d\<close> open ones;
  \<open>None\<close> when a right parenthesis meets no open left one. A token is sorted as
  \<open>generate_rpn\<close> sorts it.
\<close>

fun paren_depth :: "int list \<Rightarrow> nat \<Rightarrow> nat option" where
  "paren_depth [] d = Some d"
| "paren_depth (t # ts) d =
     (if t < OP_RIGHT_PAREN then paren_depth ts d
      else if t = OP_LEFT_PAREN then paren_depth ts (d + 1)
      else if d = 0 then None else paren_depth ts (d - 1))"

definition stack_ok :: "int list \<Rightarrow> bool" where
  "stack_ok stack = list_all (\<lambda>op. op < OP_RIGHT_PAREN \<or> op = OP_LEFT_PAREN) stack"

definition open_parens :: "int list \<Rightarrow> nat" where
  "open_parens stack = length (filter (\<lambda>op. op = OP_LEFT_PAREN) stack)"

definition paren_outcome :: "nat option \<Rightarrow> int \<Rightarrow> error + int list \<Rightarrow> bool" where
  "paren_outcome depth cell_id res =
     (case depth of
        None \<Rightarrow> res = Inl OutOfBoundsAccess
      | Some 0 \<Rightarrow> (\<exists>out. res = Inr out)
      | Some (Suc n) \<Rightarrow> res = Inl (MismatchedParentheses cell_id))"

subsection \<open>Evaluation of a region from the decisions of its operands\<close>

text \<open>
  The two evaluators of the specification, over a decision \<open>decided t\<close> for each operand
  \<open>t\<close>: the simple path passes when every operand passes; the complex path pushes the
  decision of an operand, replaces two entries by their conjunction or disjunction, and
  negates the top.
\<close>

definition operands :: "int list \<Rightarrow> int list" where
  "operands rpn_tokens = filter (\<lambda>t. t < OP_UNION) rpn_tokens"

fun spec_stack :: "(int \<Rightarrow> bool) \<Rightarrow> int list \<Rightarrow> bool list \<Rightarrow> error + bool list" where
  "spec_stack decided [] stack = Inr stack"
| "spec_stack decided (t # ts) stack =
     (if t = OP_INTERSECTION then
        (case stack of
           b # a # rest \<Rightarrow> spec_stack decided ts ((a \<and> b) # rest)
         | _ \<Rightarrow> Inl OutOfBoundsAccess)
      else if t = OP_UNION then
        (case stack of
           b # a # rest \<Rightarrow> spec_stack decided ts ((a \<or> b) # rest)
         | _ \<Rightarrow> Inl OutOfBoundsAccess)
      else if t = OP_COMPLEMENT then
        (case stack of
           b # rest \<Rightarrow> spec_stack decided ts ((\<not> b) # rest)
         | [] \<Rightarrow> Inl OutOfBoundsAccess)
      else spec_stack decided ts (decided t # stack))"

definition spec_contains :: "(int \<Rightarrow> bool) \<Rightarrow> cell \<Rightarrow> error + bool" where
  "spec_contains decided c =
     (if simple c then Inr (list_all decided (operands (rpn c)))
      else case spec_stack decided (rpn c) [] of
             Inl e \<Rightarrow> Inl e
           | Inr stack \<Rightarrow> if length stack = 1 then Inr (hd stack) else Inr True)"

text \<open>The decision that both evaluators of the program take for an operand.\<close>

definition decision :: "(int \<Rightarrow> 'p \<Rightarrow> 'd \<Rightarrow> bool) \<Rightarrow> 'p \<Rightarrow> 'd \<Rightarrow> int \<Rightarrow> int \<Rightarrow> bool" where
  "decision sense r u on_surface t =
     (if t = on_surface then True
      else if - t = on_surface then False
      else sense (\<bar>t\<bar> - 1) r u = (t > 0))"

text \<open>
  A well-formed postfix form (invariant 5 of the data model): run on a stack, with a
  push for an operand, two entries replaced by one for a binary operator and the top
  negated for a complement, it never finds too few entries and leaves exactly one; or
  it is empty.
\<close>

fun stack_depth :: "int list \<Rightarrow> nat \<Rightarrow> nat option" where
  "stack_depth [] n = Some n"
| "stack_depth (t # ts) n =
     (if t < OP_UNION then stack_depth ts (n + 1)
      else if t = OP_UNION \<or> t = OP_INTERSECTION then
        (if n \<ge> 2 then stack_depth ts (n - 1) else None)
      else if t = OP_COMPLEMENT then (if n \<ge> 1 then stack_depth ts n else None)
      else None)"

definition well_formed :: "int list \<Rightarrow> bool" where
  "well_formed rpn_tokens = (rpn_tokens = [] \<or> stack_depth rpn_tokens 0 = Some 1)"

subsection \<open>Candidates of the distance\<close>

text \<open>
  The distance that \<open>Cell::distance\<close> computes for the operand \<open>t\<close>, and the test by
  which a candidate \<open>d\<close> takes the place of the running minimum.
\<close>

definition candidate ::
  "(int \<Rightarrow> 'p \<Rightarrow> 'd \<Rightarrow> bool \<Rightarrow> real) \<Rightarrow> 'p \<Rightarrow> 'd \<Rightarrow> int \<Rightarrow> int \<Rightarrow> real" where
  "candidate surface_distance r u on_surface t =
     surface_distance (\<bar>t\<bar> - 1) r u (t = on_surface)"

definition displaces :: "real \<Rightarrow> real \<Rightarrow> real \<Rightarrow> bool" where
  "displaces FP_PRECISION d min_dist = (d < min_dist \<and> relative_gap d min_dist FP_PRECISION)"

subsection \<open>Indices of the C API\<close>

text \<open>
  A material index is valid when it is the void sentinel or lies in the 1-based range of
  the materials; \<open>to_internal\<close> is its value in the cell.
\<close>

definition valid_material :: "nat \<Rightarrow> int \<Rightarrow> bool" where
  "valid_material n_mat i_mat = (i_mat = MATERIAL_VOID \<or> (1 \<le> i_mat \<and> i_mat \<le> int n_mat))"

definition to_internal :: "int \<Rightarrow> int" where
  "to_internal i_mat = (if i_mat = MATERIAL_VOID then MATERIAL_VOID else i_mat - 1)"

text \<open>What \<open>openmc_cell_get_fill\<close> reports of a cell.\<close>

definition fill_view :: "cell \<Rightarrow> int \<times> int list \<times> int" where
  "fill_view c =
     (if fill_type c = FILL_MATERIAL
      then (fill_type c, material c, int (length (material c)))
      else (fill_type c, [fill c], 1))"

subsection \<open>Example data\<close>

definition cell0 :: cell where
  "cell0 = \<lparr>id' = 1, fill_type = FILL_MATERIAL, universe = 0, fill = - 1,
            material = [0], sqrtkT = [Some 1], region = [], rpn = [], simple = True\<rparr>"

definition geometry0 :: geometry where
  "geometry0 = \<lparr>global_cells = [cell0], n_materials = 1, openmc_err_msg = []\<rparr>"

text \<open>The largest finite \<open>double\<close>, and a precision threshold of \<open>1e-14\<close>.\<close>

definition DBL_MAX :: real where
  "DBL_MAX = (2 - 1 / 2 ^ 52) * 2 ^ 1023"

definition eps14 :: real where
  "eps14 = 1 / 10 ^ 14"

section \<open>Properties of the tokenizer\<close>

lemmas op_codes =
  OP_LEFT_PAREN_def OP_RIGHT_PAREN_def OP_COMPLEMENT_def OP_INTERSECTION_def OP_UNION_def

declare insert_intersections.simps [simp del]

lemma intersection_not_left_compat: "\<not> left_compat OP_INTERSECTION"
  by (simp add: left_compat_def op_codes)

text \<open>
  The second loop at index \<open>length done\<close>, with a token at that index: it returns, reads
  inside the vector only, and leaves what came before the index as it was.
\<close>

lemma insert_intersections_from:
  "insert_intersections (length done) (done @ a # rest) =
     Inr (done @ implicit_intersections (a # rest))"
proof (induction rest arbitrary: "done" a)
  case Nil
  show ?case
    by (simp add: insert_intersections.simps [of "length done"] size_minus_one_def)
next
  case (Cons b rest)
  have step: "insert_intersections (length done) (done @ a # b # rest) =
      (if left_compat a \<and> right_compat b
       then insert_intersections (Suc (length done)) (done @ a # OP_INTERSECTION # b # rest)
       else insert_intersections (Suc (length done)) (done @ a # b # rest))"
    by (simp add: insert_intersections.simps [of "length done"] size_minus_one_def nth_append)
  show ?case
  proof (cases "left_compat a \<and> right_compat b")
    case False
    have "insert_intersections (length (done @ [a])) ((done @ [a]) @ b # rest) =
        Inr ((done @ [a]) @ implicit_intersections (b # rest))"
      by (rule Cons.IH)
    with False step show ?thesis by auto
  next
    case True
    have skip: "insert_intersections (Suc (length done)) (done @ a # OP_INTERSECTION # b # rest) =
        insert_intersections (length (done @ [a, OP_INTERSECTION]))
          ((done @ [a, OP_INTERSECTION]) @ b # rest)"
      using intersection_not_left_compat
      by (simp add: insert_intersections.simps [of "Suc (length done)"] size_minus_one_def
          nth_append)
    have "insert_intersections (length (done @ [a, OP_INTERSECTION]))
          ((done @ [a, OP_INTERSECTION]) @ b # rest) =
        Inr ((done @ [a, OP_INTERSECTION]) @ implicit_intersections (b # rest))"
      by (rule Cons.IH)
    with True step skip show ?thesis by simp
  qed
qed

lemma insert_intersections_refines:
  "tokens \<noteq> [] \<Longrightarrow> insert_intersections 0 tokens = Inr (implicit_intersections tokens)"
  using insert_intersections_from [of "[]"] by (cases tokens) auto

lemma implicit_operands:
  "list_all (\<lambda>s. s < OP_UNION) ss \<Longrightarrow> implicit_intersections ss = with_intersections ss"
  by (induction ss rule: with_intersections.induct)
     (simp_all add: left_compat_def right_compat_def)

lemma space_not_digit: "isspace c \<Longrightarrow> \<not> isdigit c"
  by (auto simp: isspace_def isdigit_def)

lemma space_not_operator: "isspace c \<Longrightarrow> c \<notin> set ''()|~-+''"
  by (auto simp: isspace_def)

lemma scan_space: "isspace c \<Longrightarrow> scan_tokens (c # cs) tokens = scan_tokens cs tokens"
  using space_not_digit [of c] space_not_operator [of c] by simp

lemma scan_whitespace:
  "list_all isspace ws \<Longrightarrow> scan_tokens (ws @ rest) tokens = scan_tokens rest tokens"
  by (induction ws) (simp_all add: scan_space del: scan_tokens.simps)

lemma takeWhile_digits:
  "list_all isdigit cs \<Longrightarrow> rest = [] \<or> \<not> isdigit (hd rest) \<Longrightarrow>
   takeWhile isdigit (cs @ rest) = cs \<and> dropWhile isdigit (cs @ rest) = rest"
  by (induction cs) (auto simp: takeWhile_eq_Nil_iff dropWhile_eq_self_iff)

lemma scan_literal:
  assumes "is_literal lit" and "stoi lit = Inr s" and "rest = [] \<or> \<not> isdigit (hd rest)"
  shows "scan_tokens (lit @ rest) tokens = scan_tokens rest (tokens @ [s])"
proof -
  from assms(1) obtain c cs where lit: "lit = c # cs"
    and c: "c = CHR ''-'' \<or> c = CHR ''+'' \<or> isdigit c" and cs: "list_all isdigit cs"
    by (cases lit) (auto simp: is_literal_def)
  from c have ops: "c \<noteq> CHR ''(''" "c \<noteq> CHR '')''" "c \<noteq> CHR ''|''" "c \<noteq> CHR ''~''"
    by (auto simp: isdigit_def)
  from takeWhile_digits [OF cs assms(3)] assms(2) c ops show ?thesis
    by (simp add: lit)
qed

lemma scan_items:
  assumes "list_all2 denotes items ss" and "list_all (\<lambda>item. fst item \<noteq> []) items"
    and "list_all isspace trailing"
  shows "scan_tokens (spaced items @ trailing) tokens = Inr (tokens @ ss)"
  using assms
proof (induction items ss arbitrary: tokens rule: list_all2_induct)
  case Nil
  then show ?case using scan_whitespace [of trailing "[]"] by simp
next
  case (Cons item items s ss)
  obtain ws lit where item: "item = (ws, lit)" by (cases item)
  have follow: "spaced items @ trailing = [] \<or> \<not> isdigit (hd (spaced items @ trailing))"
  proof (cases items)
    case Nil
    with \<open>list_all isspace trailing\<close> show ?thesis
      by (cases trailing) (auto dest: space_not_digit)
  next
    case (Cons item' items')
    obtain ws' lit' where "item' = (ws', lit')" by (cases item')
    with Cons \<open>list_all2 denotes items ss\<close> \<open>list_all (\<lambda>item. fst item \<noteq> []) (item # items)\<close>
    show ?thesis
      by (cases ws') (auto simp: denotes_def list_all2_Cons1 dest: space_not_digit)
  qed
  from \<open>denotes item s\<close> item have ws: "list_all isspace ws" and lit: "is_literal lit"
    and s: "stoi lit = Inr s"
    by (auto simp: denotes_def)
  have "scan_tokens (spaced (item # items) @ trailing) tokens =
      scan_tokens (lit @ spaced items @ trailing) tokens"
    using scan_whitespace [OF ws] by (simp add: item)
  also have "\<dots> = scan_tokens (spaced items @ trailing) (tokens @ [s])"
    by (rule scan_literal [OF lit s follow])
  also have "\<dots> = Inr ((tokens @ [s]) @ ss)"
    using Cons.prems by (intro Cons.IH) auto
  finally show ?case by simp
qed

lemma scan_operand_list:
  assumes "items \<noteq> []" and "list_all2 denotes items ss"
    and "list_all (\<lambda>item. fst item \<noteq> []) (tl items)" and "list_all isspace trailing"
  shows "scan_tokens (spaced items @ trailing) [] = Inr ss"
proof -
  from assms(1,2) obtain item rest s ss' where items: "items = item # rest"
    and ss: "ss = s # ss'" and item: "denotes item s" and rest: "list_all2 denotes rest ss'"
    by (cases items; cases ss) auto
  obtain ws lit where wl: "item = (ws, lit)" by (cases item)
  from item wl have ws: "list_all isspace ws" and lit: "is_literal lit" and s: "stoi lit = Inr s"
    by (auto simp: denotes_def)
  from assms(3) items have sep: "list_all (\<lambda>item. fst item \<noteq> []) rest" by simp
  have follow: "spaced rest @ trailing = [] \<or> \<not> isdigit (hd (spaced rest @ trailing))"
  proof (cases rest)
    case Nil
    with assms(4) show ?thesis by (cases trailing) (auto dest: space_not_digit)
  next
    case (Cons item' rest')
    obtain ws' lit' where "item' = (ws', lit')" by (cases item')
    with Cons rest sep show ?thesis
      by (cases ws') (auto simp: denotes_def list_all2_Cons1 dest: space_not_digit)
  qed
  have "scan_tokens (spaced items @ trailing) [] = scan_tokens (lit @ spaced rest @ trailing) []"
    using scan_whitespace [OF ws] by (simp add: items wl)
  also have "\<dots> = scan_tokens (spaced rest @ trailing) ([] @ [s])"
    by (rule scan_literal [OF lit s follow])
  also have "\<dots> = Inr (([] @ [s]) @ ss')"
    by (rule scan_items [OF rest sep assms(4)])
  finally show ?thesis by (simp add: ss)
qed

lemma operand_list_not_empty:
  assumes "items \<noteq> []" and "list_all2 denotes items ss"
  shows "spaced items @ trailing \<noteq> [] \<and> ss \<noteq> []"
proof -
  from assms obtain item rest s ss' where "items = item # rest" "ss = s # ss'" "denotes item s"
    by (cases items; cases ss) auto
  then show ?thesis by (cases item) (auto simp: denotes_def is_literal_def)
qed

text \<open>
  C8, as the code has it. A whitespace-separated list of literals that denote the operands
  \<open>s\<^sub>1, \<dots>, s\<^sub>n\<close> (integers that \<open>std::stoi\<close> reads and that lie below the operator
  codes), \<open>n \<ge> 1\<close>, with whitespace allowed before the first and after the last, is
  tokenized to \<open>s\<^sub>1, INTERSECTION, s\<^sub>2, \<dots>, s\<^sub>n\<close>. More generally, on a vector of at
  least one token the second pass returns the vector with an \<open>INTERSECTION\<close> between
  two adjacent tokens exactly when the left one is an operand or \<open>RIGHT_PAREN\<close> and the
  right one an operand, \<open>LEFT_PAREN\<close> or \<open>COMPLEMENT\<close>.
\<close>

theorem tokenize_implicit_intersections:
  "(items \<noteq> [] \<and> list_all2 denotes items ss \<and> list_all (\<lambda>s. s < OP_UNION) ss \<and>
    list_all (\<lambda>item. fst item \<noteq> []) (tl items) \<and> list_all isspace trailing \<longrightarrow>
      tokenize (spaced items @ trailing) = Inr (with_intersections ss)) \<and>
   (tokens \<noteq> [] \<longrightarrow> insert_intersections 0 tokens = Inr (implicit_intersections tokens))"
proof (intro conjI impI)
  assume a: "items \<noteq> [] \<and> list_all2 denotes items ss \<and> list_all (\<lambda>s. s < OP_UNION) ss \<and>
    list_all (\<lambda>item. fst item \<noteq> []) (tl items) \<and> list_all isspace trailing"
  then have scan: "scan_tokens (spaced items @ trailing) [] = Inr ss"
    by (intro scan_operand_list) simp_all
  from a operand_list_not_empty [of items ss trailing]
  have ne: "spaced items @ trailing \<noteq> []" "ss \<noteq> []" by simp_all
  from a have "implicit_intersections ss = with_intersections ss"
    by (intro implicit_operands) simp
  with scan ne insert_intersections_refines [of ss]
  show "tokenize (spaced items @ trailing) = Inr (with_intersections ss)"
    by (auto simp: tokenize_def)
next
  assume "tokens \<noteq> []"
  then show "insert_intersections 0 tokens = Inr (implicit_intersections tokens)"
    by (rule insert_intersections_refines)
qed

theorem tokenize_implicit_intersections_witness:
  "tokenize ''1 -2  +3 '' = Inr [1, OP_INTERSECTION, - 2, OP_INTERSECTION, 3] \<and>
   insert_intersections 0 [OP_RIGHT_PAREN, OP_COMPLEMENT, 4, OP_UNION, 5, OP_LEFT_PAREN] =
     Inr [OP_RIGHT_PAREN, OP_INTERSECTION, OP_COMPLEMENT, 4, OP_UNION, 5, OP_INTERSECTION,
          OP_LEFT_PAREN]"
  using tokenize_implicit_intersections
    [of "[([], ''1''), ('' '', ''-2''), (''  '', ''+3'')]" "[1, - 2, 3]" "'' ''"
        "[OP_RIGHT_PAREN, OP_COMPLEMENT, 4, OP_UNION, 5, OP_LEFT_PAREN]"]
  by (simp add: denotes_def is_literal_def stoi_def isdigit_def isspace_def
      left_compat_def right_compat_def op_codes)

text \<open>
  C8, as the claim states it, fails on integers that are no operands. An integer
  outside the range of \<open>int\<close> makes \<open>std::stoi\<close> throw, and no token sequence is
  produced; the integer 2147483647 is the code \<open>OP_LEFT_PAREN\<close>, which is not
  left-compatible, so that no \<open>INTERSECTION\<close> follows it.
\<close>

theorem tokenize_integer_outside_operands:
  "tokenize ''99999999999 1'' = Inl StoiOutOfRange \<and>
   tokenize ''2147483647 1'' = Inr [2147483647, 1] \<and>
   with_intersections [2147483647, 1] = [2147483647, OP_INTERSECTION, 1]"
  by (simp add: tokenize_def isspace_def isdigit_def stoi_def insert_intersections.simps
      size_minus_one_def left_compat_def right_compat_def op_codes)

text \<open>
  C10. On the one-character input of a single space the first loop leaves the token
  vector empty; the bound \<open>tokens.size()-1\<close> of the second loop then wraps around, the
  loop is entered and reads \<open>tokens[0]\<close> of the empty vector.
\<close>

theorem tokenize_whitespace_only:
  "scan_tokens '' '' [] = Inr [] \<and> tokenize '' '' = Inl OutOfBoundsAccess"
  by (simp add: tokenize_def isspace_def isdigit_def insert_intersections.simps
      size_minus_one_def)

section \<open>Properties of the compiler\<close>

text \<open>
  The stack holds regular operators and left parentheses only. The loop for a regular
  operator leaves the left parentheses on it.
\<close>

lemma pop_operators_parens:
  "pop_operators token out stack = (out', stack') \<Longrightarrow> stack_ok stack \<Longrightarrow>
   stack_ok stack' \<and> open_parens stack' = open_parens stack"
proof (induction stack arbitrary: out)
  case Nil
  then show ?case by simp
next
  case (Cons op stack)
  then show ?case
    by (auto simp: stack_ok_def open_parens_def OP_LEFT_PAREN_def OP_RIGHT_PAREN_def
        split: if_splits)
qed

lemma pop_to_left_paren_none:
  "open_parens stack = 0 \<Longrightarrow> pop_to_left_paren cell_id out stack = Inl OutOfBoundsAccess"
  by (induction stack arbitrary: out) (auto simp: open_parens_def split: if_splits)

lemma pop_to_left_paren_some:
  "open_parens stack = Suc n \<Longrightarrow> stack_ok stack \<Longrightarrow>
   \<exists>out' stack'. pop_to_left_paren cell_id out stack = Inr (out', stack') \<and>
      stack_ok stack' \<and> open_parens stack' = n"
  by (induction stack arbitrary: out) (auto simp: open_parens_def stack_ok_def split: if_splits)

lemma pop_remaining_open:
  "open_parens stack = Suc n \<Longrightarrow> stack_ok stack \<Longrightarrow>
   pop_remaining cell_id out stack = Inl (MismatchedParentheses cell_id)"
  by (induction stack arbitrary: out)
     (auto simp: open_parens_def stack_ok_def OP_LEFT_PAREN_def OP_RIGHT_PAREN_def
      split: if_splits)

lemma pop_remaining_closed:
  "open_parens stack = 0 \<Longrightarrow> stack_ok stack \<Longrightarrow>
   pop_remaining cell_id out stack = Inr (out @ stack)"
  by (induction stack arbitrary: out)
     (auto simp: open_parens_def stack_ok_def OP_LEFT_PAREN_def OP_RIGHT_PAREN_def
      split: if_splits)

lemma rpn_loop_parens:
  assumes "stack_ok stack"
  shows "paren_outcome (paren_depth tokens (open_parens stack)) cell_id
           (rpn_loop cell_id tokens out stack)"
  using assms
proof (induction tokens arbitrary: out stack)
  case Nil
  then show ?case
    by (cases "open_parens stack")
       (simp_all add: paren_outcome_def pop_remaining_open pop_remaining_closed)
next
  case (Cons token tokens)
  consider (operand) "token < OP_UNION"
    | (operator) "OP_UNION \<le> token" "token < OP_RIGHT_PAREN"
    | (left) "token = OP_LEFT_PAREN"
    | (right) "OP_RIGHT_PAREN \<le> token" "token \<noteq> OP_LEFT_PAREN"
    by atomize_elim (simp add: OP_LEFT_PAREN_def OP_RIGHT_PAREN_def OP_UNION_def, arith)
  then show ?case
  proof cases
    case operand
    then have "token < OP_RIGHT_PAREN" by (simp add: OP_UNION_def OP_RIGHT_PAREN_def)
    with operand Cons.IH [OF Cons.prems, of "out @ [token]"] show ?thesis by simp
  next
    case operator
    obtain out' stack' where pop: "pop_operators token out stack = (out', stack')"
      by (cases "pop_operators token out stack")
    from pop_operators_parens [OF pop Cons.prems]
    have ok: "stack_ok stack'" and same: "open_parens stack' = open_parens stack" by auto
    from operator have tok: "token \<noteq> OP_LEFT_PAREN"
      by (simp add: OP_LEFT_PAREN_def OP_RIGHT_PAREN_def)
    from ok operator have ok': "stack_ok (token # stack')" by (simp add: stack_ok_def)
    from tok same have "open_parens (token # stack') = open_parens stack"
      by (simp add: open_parens_def)
    with Cons.IH [OF ok', of out'] operator pop show ?thesis by simp
  next
    case left
    have ok': "stack_ok (token # stack)" using Cons.prems left by (simp add: stack_ok_def)
    have "open_parens (token # stack) = open_parens stack + 1"
      using left by (simp add: open_parens_def)
    with Cons.IH [OF ok', of out] left show ?thesis
      by (simp add: OP_LEFT_PAREN_def OP_RIGHT_PAREN_def OP_UNION_def)
  next
    case right
    then have branch: "\<not> token < OP_UNION" "\<not> token < OP_RIGHT_PAREN"
      by (simp_all add: OP_UNION_def OP_RIGHT_PAREN_def)
    show ?thesis
    proof (cases "open_parens stack")
      case 0
      with branch right pop_to_left_paren_none [of stack cell_id out] show ?thesis
        by (simp add: paren_outcome_def)
    next
      case (Suc n)
      from pop_to_left_paren_some [OF Suc Cons.prems, of cell_id out]
      obtain out' stack' where pop: "pop_to_left_paren cell_id out stack = Inr (out', stack')"
        and ok: "stack_ok stack'" and n: "open_parens stack' = n"
        by auto
      with Cons.IH [OF ok, of out'] branch right Suc show ?thesis by simp
    qed
  qed
qed

text \<open>
  What \<open>generate_rpn\<close> does, by the balance of the parentheses: a postfix form when they
  balance; the error \<open>MismatchedParentheses\<close> with the id of the cell when a left
  parenthesis stays open at the end of the input; a read outside the stack when a right
  parenthesis meets no open left one.
\<close>

lemma generate_rpn_parens:
  "paren_outcome (paren_depth tokens 0) cell_id (generate_rpn cell_id tokens)"
  using rpn_loop_parens [where stack = "[]" and out = "[]" and tokens = tokens
      and cell_id = cell_id]
  by (simp add: generate_rpn_def stack_ok_def open_parens_def)

lemma leftover_left_paren:
  "paren_depth tokens 0 = Some (Suc n) \<Longrightarrow>
   generate_rpn cell_id tokens = Inl (MismatchedParentheses cell_id)"
  using generate_rpn_parens [where tokens = tokens and cell_id = cell_id]
  by (simp add: paren_outcome_def)

lemma unmatched_right_paren:
  "paren_depth tokens 0 = None \<Longrightarrow> generate_rpn cell_id tokens = Inl OutOfBoundsAccess"
  using generate_rpn_parens [where tokens = tokens and cell_id = cell_id]
  by (simp add: paren_outcome_def)

lemma region_of_cell_6:
  "tokenize ''((1'' = Inr [OP_LEFT_PAREN, OP_LEFT_PAREN, 1] \<and>
   generate_rpn 6 [OP_LEFT_PAREN, OP_LEFT_PAREN, 1] = Inl (MismatchedParentheses 6)"
  by (simp add: tokenize_def isspace_def isdigit_def stoi_def insert_intersections.simps
      size_minus_one_def left_compat_def right_compat_def generate_rpn_def
      OP_LEFT_PAREN_def OP_RIGHT_PAREN_def OP_UNION_def)

text \<open>
  A postfix form holds tokens of the region only, and the operands of a compiled region
  are not zero when \<open>surface_map\<close> holds indices, which are not negative.
\<close>

lemma pop_operators_tokens:
  "pop_operators token out stack = (out', stack') \<Longrightarrow>
   set out' \<union> set stack' = set out \<union> set stack"
  by (induction stack arbitrary: out) (auto split: if_splits)

lemma pop_to_left_paren_tokens:
  "pop_to_left_paren cell_id out stack = Inr (out', stack') \<Longrightarrow>
   set out' \<union> set stack' \<subseteq> set out \<union> set stack"
proof (induction stack arbitrary: out)
  case Nil
  then show ?case by simp
next
  case (Cons op stack)
  show ?case
  proof (cases "op = OP_LEFT_PAREN")
    case True
    with Cons.prems show ?thesis by auto
  next
    case False
    with Cons.prems have "pop_to_left_paren cell_id (out @ [op]) stack = Inr (out', stack')"
      by simp
    from Cons.IH [OF this] show ?thesis by auto
  qed
qed

lemma pop_remaining_tokens:
  "pop_remaining cell_id out stack = Inr out' \<Longrightarrow> set out' = set out \<union> set stack"
  by (induction stack arbitrary: out) (auto split: if_splits)

lemma rpn_loop_tokens:
  "rpn_loop cell_id tokens out stack = Inr out' \<Longrightarrow>
   set out' \<subseteq> set tokens \<union> set out \<union> set stack"
proof (induction tokens arbitrary: out stack)
  case Nil
  then show ?case using pop_remaining_tokens [of cell_id out stack out'] by simp
next
  case (Cons token tokens)
  show ?case
  proof (cases "token < OP_UNION")
    case True
    with Cons.prems Cons.IH [of "out @ [token]" stack] show ?thesis by auto
  next
    case operator: False
    show ?thesis
    proof (cases "token < OP_RIGHT_PAREN")
      case True
      obtain o' s' where pop: "pop_operators token out stack = (o', s')"
        by (cases "pop_operators token out stack")
      with Cons.prems operator True have "rpn_loop cell_id tokens o' (token # s') = Inr out'"
        by simp
      from Cons.IH [OF this] pop_operators_tokens [OF pop] show ?thesis by auto
    next
      case False
      show ?thesis
      proof (cases "token = OP_LEFT_PAREN")
        case True
        with Cons.prems operator False have "rpn_loop cell_id tokens out (token # stack) = Inr out'"
          by simp
        from Cons.IH [OF this] show ?thesis by auto
      next
        case right: False
        with Cons.prems operator False obtain o' s' where
          pop: "pop_to_left_paren cell_id out stack = Inr (o', s')"
          and loop: "rpn_loop cell_id tokens o' s' = Inr out'"
          by (auto split: sum.splits)
        from Cons.IH [OF loop] pop_to_left_paren_tokens [OF pop] show ?thesis by auto
      qed
    qed
  qed
qed

lemma bind_surfaces_nonzero:
  assumes "\<forall>k. 0 \<le> surface_map k"
  shows "0 \<notin> set (bind_surfaces surface_map tokens)"
proof -
  define f where "f = (\<lambda>r. if r < OP_UNION then copysign (surface_map \<bar>r\<bar> + 1) r else r)"
  have bound: "f r \<noteq> 0" for r
  proof (cases "r < OP_UNION")
    case True
    from assms have "0 \<le> surface_map \<bar>r\<bar>" by simp
    then have "\<bar>surface_map \<bar>r\<bar> + 1\<bar> \<noteq> 0" by arith
    with True show ?thesis by (cases "r < 0") (simp_all add: f_def copysign_def)
  next
    case False
    then show ?thesis by (simp add: f_def OP_UNION_def)
  qed
  have "bind_surfaces surface_map tokens = map f tokens"
    by (simp add: bind_surfaces_def f_def)
  with bound show ?thesis by auto
qed

lemma compiled_operands_nonzero:
  assumes "compile_region surface_map region_spec c = Inr c'" and "\<forall>k. 0 \<le> surface_map k"
  shows "0 \<notin> set (rpn c')"
proof -
  from assms(1) obtain tokens where
    gen: "generate_rpn (id' c) (bind_surfaces surface_map tokens) = Inr (rpn c')"
    by (auto simp: compile_region_def Let_def split: sum.splits)
  from rpn_loop_tokens [OF gen [unfolded generate_rpn_def]]
  have "set (rpn c') \<subseteq> set (bind_surfaces surface_map tokens)" by simp
  with bind_surfaces_nonzero [OF assms(2)] show ?thesis by auto
qed

text \<open>
  The regions \<open>(1 2) | -3\<close> and \<open>~(1 | 2)\<close> of the specification's scenarios: union
  binds more weakly than intersection, and a complement follows what it negates.
\<close>

lemma region_of_cell_2:
  "tokenize ''(1 2) | -3'' =
     Inr [OP_LEFT_PAREN, 1, OP_INTERSECTION, 2, OP_RIGHT_PAREN, OP_UNION, - 3] \<and>
   generate_rpn 2 [OP_LEFT_PAREN, 1, OP_INTERSECTION, 2, OP_RIGHT_PAREN, OP_UNION, - 3] =
     Inr [1, 2, OP_INTERSECTION, - 3, OP_UNION]"
  by (simp add: tokenize_def isspace_def isdigit_def stoi_def insert_intersections.simps
      size_minus_one_def left_compat_def right_compat_def generate_rpn_def op_codes)

lemma region_of_cell_3:
  "tokenize ''~(1 | 2)'' =
     Inr [OP_COMPLEMENT, OP_LEFT_PAREN, 1, OP_UNION, 2, OP_RIGHT_PAREN] \<and>
   generate_rpn 3 [OP_COMPLEMENT, OP_LEFT_PAREN, 1, OP_UNION, 2, OP_RIGHT_PAREN] =
     Inr [1, 2, OP_UNION, OP_COMPLEMENT]"
  by (simp add: tokenize_def isspace_def isdigit_def stoi_def insert_intersections.simps
      size_minus_one_def left_compat_def right_compat_def generate_rpn_def op_codes)

text \<open>
  C1. The region \<open>)\<close>, a right parenthesis with no left one, is tokenized to the single
  token \<open>OP_RIGHT_PAREN\<close>; \<open>generate_rpn\<close> then evaluates \<open>*it\<close> for the reverse iterator
  of the empty stack, before the test \<open>it == stack.rend()\<close> that would report the
  mismatched parentheses: a read outside the vector, not the error of the claim.
\<close>

theorem generate_rpn_unmatched_right_paren:
  "tokenize '')'' = Inr [OP_RIGHT_PAREN] \<and>
   generate_rpn 6 [OP_RIGHT_PAREN] = Inl OutOfBoundsAccess"
  by (simp add: tokenize_def isspace_def isdigit_def insert_intersections.simps
      size_minus_one_def generate_rpn_def OP_LEFT_PAREN_def OP_RIGHT_PAREN_def OP_UNION_def)

section \<open>Properties of containment\<close>

lemma contains_simple_decisions:
  "contains_simple sense ts r u on_surface =
     list_all (decision sense r u on_surface) (operands ts)"
  by (induction ts) (auto simp: operands_def decision_def)

lemma complex_loop_decisions:
  "complex_loop sense ts r u on_surface stack =
     spec_stack (decision sense r u on_surface) ts stack"
  by (induction ts arbitrary: stack) (auto simp: decision_def op_codes split: list.splits)

lemma spec_stack_cong:
  "\<forall>t\<in>set ts. f t = g t \<Longrightarrow> spec_stack f ts stack = spec_stack g ts stack"
  by (induction ts arbitrary: stack) (auto split: list.splits)

lemma spec_contains_cong:
  assumes "\<forall>t\<in>set (rpn c). f t = g t"
  shows "spec_contains f c = spec_contains g c"
proof -
  have "list_all f (operands (rpn c)) = list_all g (operands (rpn c))"
    using assms by (auto simp: operands_def list_all_iff)
  with spec_stack_cong [OF assms, of "[]"] show ?thesis
    by (simp add: spec_contains_def)
qed

lemma contains_decisions:
  "contains sense c r u on_surface = spec_contains (decision sense r u on_surface) c"
  by (simp add: contains_def spec_contains_def contains_complex_def
      contains_simple_decisions complex_loop_decisions)

text \<open>
  C2. With \<open>on_surface = s\<close>, \<open>s\<close> not zero, \<open>contains\<close> is the evaluation of the region in
  which every operand \<open>s\<close> counts as satisfied and every operand \<open>-s\<close> as unsatisfied,
  neither by a call of \<open>sense\<close>; with \<open>on_surface = -s\<close> it is the other way round. With
  \<open>on_surface = 0\<close>, and no operand zero (as in every compiled cell), every operand \<open>t\<close>
  is decided by the sense of its surface compared with the sign of \<open>t\<close>.
\<close>

theorem contains_on_surface_override:
  "(s \<noteq> 0 \<longrightarrow>
      contains sense c r u s =
        spec_contains (\<lambda>t. if t = s then True else if t = - s then False
                            else sense (\<bar>t\<bar> - 1) r u = (t > 0)) c \<and>
      contains sense c r u (- s) =
        spec_contains (\<lambda>t. if t = s then False else if t = - s then True
                            else sense (\<bar>t\<bar> - 1) r u = (t > 0)) c) \<and>
   (0 \<notin> set (rpn c) \<longrightarrow>
      contains sense c r u 0 = spec_contains (\<lambda>t. sense (\<bar>t\<bar> - 1) r u = (t > 0)) c)"
proof (intro conjI impI)
  assume s: "s \<noteq> 0"
  have "decision sense r u s =
      (\<lambda>t. if t = s then True else if t = - s then False else sense (\<bar>t\<bar> - 1) r u = (t > 0))"
    by (auto simp: decision_def fun_eq_iff)
  then show "contains sense c r u s =
      spec_contains (\<lambda>t. if t = s then True else if t = - s then False
                          else sense (\<bar>t\<bar> - 1) r u = (t > 0)) c"
    by (simp add: contains_decisions)
  have "decision sense r u (- s) =
      (\<lambda>t. if t = s then False else if t = - s then True else sense (\<bar>t\<bar> - 1) r u = (t > 0))"
    using s by (auto simp: decision_def fun_eq_iff)
  then show "contains sense c r u (- s) =
      spec_contains (\<lambda>t. if t = s then False else if t = - s then True
                          else sense (\<bar>t\<bar> - 1) r u = (t > 0)) c"
    by (simp add: contains_decisions)
next
  assume "0 \<notin> set (rpn c)"
  then have "\<forall>t\<in>set (rpn c). decision sense r u 0 t = (sense (\<bar>t\<bar> - 1) r u = (t > 0))"
    by (auto simp: decision_def)
  from spec_contains_cong [OF this] show
    "contains sense c r u 0 = spec_contains (\<lambda>t. sense (\<bar>t\<bar> - 1) r u = (t > 0)) c"
    by (simp add: contains_decisions)
qed

text \<open>
  The cell of the region \<open>1 | -2\<close> over surfaces whose sense is false everywhere: on
  surface 2 from its positive side neither operand holds, on it from its negative side
  the second holds, and off every surface the second holds by its sense.
\<close>

theorem contains_on_surface_override_witness:
  "contains (\<lambda>k r u. False) (cell0\<lparr>rpn := [1, - 2, OP_UNION], simple := False\<rparr>) () () 2 =
     Inr False \<and>
   contains (\<lambda>k r u. False) (cell0\<lparr>rpn := [1, - 2, OP_UNION], simple := False\<rparr>) () () (- 2) =
     Inr True \<and>
   contains (\<lambda>k r u. False) (cell0\<lparr>rpn := [1, - 2, OP_UNION], simple := False\<rparr>) () () 0 =
     Inr True"
  using contains_on_surface_override
    [of 2 "\<lambda>k r u. False" "cell0\<lparr>rpn := [1, - 2, OP_UNION], simple := False\<rparr>" "()" "()"]
  by (simp add: spec_contains_def op_codes)

lemma simple_flag_iff:
  "simple_flag ts \<longleftrightarrow> OP_UNION \<notin> set ts \<and> OP_COMPLEMENT \<notin> set ts"
  by (induction ts) auto

text \<open>
  On a postfix form of operands and intersections whose binary operators find their two
  entries, the stack of \<open>contains_complex\<close> holds only true entries exactly when it did
  so before and \<open>contains_simple\<close> passes.
\<close>

lemma complex_loop_simple:
  assumes "simple_flag ts" and "stack_depth ts (length stack) = Some n"
  shows "\<exists>stack'. complex_loop sense ts r u on_surface stack = Inr stack' \<and>
           length stack' = n \<and>
           (list_all id stack' \<longleftrightarrow>
              list_all id stack \<and> contains_simple sense ts r u on_surface)"
  using assms
proof (induction ts arbitrary: stack)
  case Nil
  then show ?case by simp
next
  case (Cons t ts)
  from Cons.prems(1) have flag: "simple_flag ts" and t: "t \<noteq> OP_UNION" "t \<noteq> OP_COMPLEMENT"
    by (auto split: if_splits)
  show ?case
  proof (cases "t < OP_UNION")
    case True
    then have not_op: "t \<noteq> OP_INTERSECTION" by (simp add: op_codes)
    define b where "b = decision sense r u on_surface t"
    have loop: "complex_loop sense (t # ts) r u on_surface stack =
        complex_loop sense ts r u on_surface (b # stack)"
      using t not_op by (simp add: b_def decision_def)
    have simple: "contains_simple sense (t # ts) r u on_surface =
        (b \<and> contains_simple sense ts r u on_surface)"
      using True by (auto simp: b_def decision_def)
    from Cons.prems(2) True have "stack_depth ts (length (b # stack)) = Some n" by simp
    from Cons.IH [OF flag this] loop simple show ?thesis by auto
  next
    case False
    with Cons.prems(2) t have inter: "t = OP_INTERSECTION" and len: "length stack \<ge> 2"
      and depth: "stack_depth ts (length stack - 1) = Some n"
      by (auto split: if_splits)
    from len obtain b a rest where stack: "stack = b # a # rest"
      by (cases stack; cases "tl stack") auto
    have loop: "complex_loop sense (t # ts) r u on_surface stack =
        complex_loop sense ts r u on_surface ((a \<and> b) # rest)"
      by (simp add: inter stack op_codes)
    have simple: "contains_simple sense (t # ts) r u on_surface =
        contains_simple sense ts r u on_surface"
      using False by simp
    from depth stack have "stack_depth ts (length ((a \<and> b) # rest)) = Some n" by simp
    from Cons.IH [OF flag this] loop simple stack show ?thesis by auto
  qed
qed

lemma simple_matches_complex:
  assumes "simple_flag ts" and "well_formed ts"
  shows "contains_complex sense ts r u on_surface =
           Inr (contains_simple sense ts r u on_surface)"
proof (cases "ts = []")
  case True
  then show ?thesis by (simp add: contains_complex_def)
next
  case False
  with assms(2) have "stack_depth ts (length ([]::bool list)) = Some 1"
    by (simp add: well_formed_def)
  from complex_loop_simple [OF assms(1) this, of sense r u on_surface]
  obtain stack' where loop: "complex_loop sense ts r u on_surface [] = Inr stack'"
    and len: "length stack' = 1"
    and all: "list_all id stack' \<longleftrightarrow> contains_simple sense ts r u on_surface"
    by auto
  from len obtain b where "stack' = [b]" by (cases stack') auto
  with loop all show ?thesis by (simp add: contains_complex_def)
qed

lemma compile_region_simple:
  "compile_region surface_map region_spec c = Inr c' \<Longrightarrow> simple c' = simple_flag (rpn c')"
  by (auto simp: compile_region_def Let_def split: sum.splits)

lemma tokenize_empty_parens_1:
  "tokenize ''()1'' = Inr [OP_LEFT_PAREN, OP_RIGHT_PAREN, OP_INTERSECTION, 1]"
  by (simp add: tokenize_def isspace_def isdigit_def stoi_def insert_intersections.simps
      size_minus_one_def left_compat_def right_compat_def op_codes)

lemma compile_empty_parens_1:
  "compile_region (\<lambda>k. 0) ''()1'' cell0 =
     Inr (cell0\<lparr>region := [OP_LEFT_PAREN, OP_RIGHT_PAREN, OP_INTERSECTION, 1],
               rpn := [1, OP_INTERSECTION], simple := True\<rparr>)"
  by (simp add: compile_region_def tokenize_empty_parens_1 bind_surfaces_def copysign_def
      generate_rpn_def op_codes)

lemma tokenize_1_2_3:
  "tokenize ''1 -2 3'' = Inr [1, OP_INTERSECTION, - 2, OP_INTERSECTION, 3]"
  by (simp add: tokenize_def isspace_def isdigit_def stoi_def insert_intersections.simps
      size_minus_one_def left_compat_def right_compat_def op_codes)

lemma compile_1_2_3:
  "compile_region (\<lambda>k. k - 1) ''1 -2 3'' cell0 =
     Inr (cell0\<lparr>region := [1, OP_INTERSECTION, - 2, OP_INTERSECTION, 3],
               rpn := [1, - 2, OP_INTERSECTION, 3, OP_INTERSECTION], simple := True\<rparr>)"
  by (simp add: compile_region_def tokenize_1_2_3 bind_surfaces_def copysign_def
      generate_rpn_def op_codes)

text \<open>
  C3, as the code has it. The simple flag of a compiled cell is true exactly when its
  postfix form holds neither \<open>UNION\<close> nor \<open>COMPLEMENT\<close>; and on a simple cell whose
  postfix form is well-formed, \<open>contains_complex\<close> returns the boolean that
  \<open>contains_simple\<close> returns, for every point, direction and \<open>on_surface\<close>.
\<close>

theorem simple_cell_agreement:
  assumes "compile_region surface_map region_spec c = Inr c'"
  shows "(simple c' \<longleftrightarrow> OP_UNION \<notin> set (rpn c') \<and> OP_COMPLEMENT \<notin> set (rpn c')) \<and>
         (simple c' \<and> well_formed (rpn c') \<longrightarrow>
            contains_complex sense (rpn c') r u on_surface =
              Inr (contains_simple sense (rpn c') r u on_surface))"
  using compile_region_simple [OF assms]
    simple_matches_complex [of "rpn c'" sense r u on_surface]
  by (auto simp: simple_flag_iff)

theorem simple_cell_agreement_witness:
  "simple (cell0\<lparr>region := [1, OP_INTERSECTION, - 2, OP_INTERSECTION, 3],
                 rpn := [1, - 2, OP_INTERSECTION, 3, OP_INTERSECTION], simple := True\<rparr>) \<and>
   well_formed [1, - 2, OP_INTERSECTION, 3, OP_INTERSECTION] \<and>
   contains_simple (\<lambda>k r u. k \<noteq> 1) [1, - 2, OP_INTERSECTION, 3, OP_INTERSECTION] () () 0 \<and>
   contains_complex (\<lambda>k r u. k \<noteq> 1) [1, - 2, OP_INTERSECTION, 3, OP_INTERSECTION] () () 0 =
     Inr True"
  using simple_cell_agreement [OF compile_1_2_3, of "\<lambda>k r u. k \<noteq> 1" "()" "()" 0]
  by (simp add: well_formed_def op_codes)

text \<open>
  C3, as the claim states it, fails on the cell of the region \<open>()1\<close>: it compiles, to the
  postfix form \<open>1, INTERSECTION\<close>, and is simple. Where the sense of its surface is
  false, \<open>contains_simple\<close> returns false, and \<open>contains_complex\<close> applies the
  intersection to a stack of one entry, reading and writing \<open>stack[-1]\<close>: no boolean of
  the cell.
\<close>

theorem simple_cell_disagreement:
  "compile_region (\<lambda>k. 0) ''()1'' cell0 =
     Inr (cell0\<lparr>region := [OP_LEFT_PAREN, OP_RIGHT_PAREN, OP_INTERSECTION, 1],
               rpn := [1, OP_INTERSECTION], simple := True\<rparr>) \<and>
   contains_simple (\<lambda>k r u. False) [1, OP_INTERSECTION] () () 0 = False \<and>
   contains_complex (\<lambda>k r u. False) [1, OP_INTERSECTION] () () 0 = Inl OutOfBoundsAccess"
  by (simp add: compile_empty_parens_1 contains_complex_def op_codes)

section \<open>Properties of the distance\<close>

text \<open>One turn of the loop of \<open>Cell::distance\<close>.\<close>

lemma distance_loop_step:
  "distance_loop eps sd (t # ts) r u on_surface (m, i) =
     distance_loop eps sd ts r u on_surface
       (if t < OP_UNION \<and> displaces eps (candidate sd r u on_surface t) m
        then (candidate sd r u on_surface t, - t) else (m, i))"
  by (simp add: displaces_def candidate_def Let_def)

declare distance_loop.simps(2) [simp del]

lemma distance_loop_append:
  "distance_loop eps sd (pre @ post) r u on_surface st =
     distance_loop eps sd post r u on_surface (distance_loop eps sd pre r u on_surface st)"
proof (induction pre arbitrary: st)
  case Nil
  show ?case by (cases st) simp
next
  case (Cons t pre)
  obtain m i where "st = (m, i)" by (cases st)
  with Cons show ?case by (simp only: append_Cons distance_loop_step)
qed


lemma displaces_nonzero:
  "m \<noteq> 0 \<Longrightarrow> displaces eps d m \<longleftrightarrow> d < m \<and> \<bar>d - m\<bar> / m \<ge> eps"
  by (simp add: displaces_def relative_gap_def)

text \<open>
  The pair that the loop returns: its distance is positive and not above the one it
  started from, every operand's candidate is not below it or below it by less than the
  tolerance, and it is the pair the loop started from or the candidate and the negated
  token of an operand.
\<close>

lemma distance_loop_bound:
  assumes "0 < eps" and "0 < m"
    and "\<forall>t\<in>set ts. t < OP_UNION \<longrightarrow> 0 < candidate sd r u on_surface t"
    and "distance_loop eps sd ts r u on_surface (m, i) = (m', i')"
  shows "0 < m' \<and> m' \<le> m \<and>
    (\<forall>t\<in>set ts. t < OP_UNION \<longrightarrow>
        m' \<le> candidate sd r u on_surface t \<or> \<bar>candidate sd r u on_surface t - m'\<bar> / m' < eps)"
  using assms(2-)
proof (induction ts arbitrary: m i)
  case Nil
  then show ?case by simp
next
  case (Cons t ts)
  let ?d = "candidate sd r u on_surface t"
  show ?case
  proof (cases "t < OP_UNION")
    case False
    with Cons.prems have "distance_loop eps sd ts r u on_surface (m, i) = (m', i')"
      by (simp add: distance_loop_step)
    from Cons.IH [OF Cons.prems(1) _ this] Cons.prems(2) False show ?thesis by auto
  next
    case True
    with Cons.prems(2) have d: "0 < ?d" by simp
    show ?thesis
    proof (cases "displaces eps ?d m")
      case disp: True
      with True Cons.prems have "distance_loop eps sd ts r u on_surface (?d, - t) = (m', i')"
        by (simp add: distance_loop_step)
      from Cons.IH [OF d _ this] Cons.prems(2) have ih: "0 < m'" "m' \<le> ?d"
        "\<forall>t\<in>set ts. t < OP_UNION \<longrightarrow>
           m' \<le> candidate sd r u on_surface t \<or>
           \<bar>candidate sd r u on_surface t - m'\<bar> / m' < eps"
        by auto
      from disp have "?d < m" by (simp add: displaces_def)
      with ih show ?thesis by auto
    next
      case nodisp: False
      with True Cons.prems have "distance_loop eps sd ts r u on_surface (m, i) = (m', i')"
        by (simp add: distance_loop_step)
      from Cons.IH [OF Cons.prems(1) _ this] Cons.prems(2) have ih: "0 < m'" "m' \<le> m"
        "\<forall>t\<in>set ts. t < OP_UNION \<longrightarrow>
           m' \<le> candidate sd r u on_surface t \<or>
           \<bar>candidate sd r u on_surface t - m'\<bar> / m' < eps"
        by auto
      have "m' \<le> ?d \<or> \<bar>?d - m'\<bar> / m' < eps"
      proof (cases "m' \<le> ?d")
        case True
        then show ?thesis by simp
      next
        case False
        then have lt: "?d < m'" by simp
        with ih(2) have "?d < m" by simp
        with nodisp Cons.prems(1) have "(m - ?d) / m < eps"
          by (simp add: displaces_def relative_gap_def)
        with Cons.prems(1) have gap: "m - ?d < eps * m" by (simp add: field_simps)
        have "m' * (1 - eps) < ?d"
        proof (cases "eps \<le> 1")
          case True
          then have "m' * (1 - eps) \<le> m * (1 - eps)"
            using ih(2) by (simp add: mult_right_mono)
          also have "\<dots> < ?d" using gap by (simp add: algebra_simps)
          finally show ?thesis .
        next
          case False
          with ih(1) have "m' * (1 - eps) < 0" by (simp add: mult_pos_neg)
          with d show ?thesis by simp
        qed
        then have "m' - ?d < eps * m'" by (simp add: algebra_simps)
        with ih(1) lt have "\<bar>?d - m'\<bar> / m' < eps" by (simp add: field_simps)
        then show ?thesis by simp
      qed
      with ih show ?thesis by auto
    qed
  qed
qed

lemma distance_loop_source:
  assumes "distance_loop eps sd ts r u on_surface (m, i) = (m', i')"
  shows "(m', i') = (m, i) \<or>
    (\<exists>t\<in>set ts. t < OP_UNION \<and> i' = - t \<and> m' = candidate sd r u on_surface t)"
  using assms
proof (induction ts arbitrary: m i)
  case Nil
  then show ?case by simp
next
  case (Cons t ts)
  show ?case
  proof (cases "t < OP_UNION \<and> displaces eps (candidate sd r u on_surface t) m")
    case True
    with Cons.prems
    have "distance_loop eps sd ts r u on_surface (candidate sd r u on_surface t, - t) = (m', i')"
      by (simp add: distance_loop_step)
    from Cons.IH [OF this] True show ?thesis by auto
  next
    case False
    with Cons.prems have "distance_loop eps sd ts r u on_surface (m, i) = (m', i')"
      by (simp add: distance_loop_step)
    from Cons.IH [OF this] show ?thesis by auto
  qed
qed










text \<open>
  C6, as the code has it. Let \<open>FP_PRECISION\<close> and \<open>INFTY\<close> be positive and let every
  operand have a positive candidate, the distance of its surface with the flag
  \<open>coincident = (token == on_surface)\<close>. Then for every operand the distance returned
  is at most the candidate, or exceeds it by less than the relative tolerance
  \<open>FP_PRECISION\<close>; and the pair returned is the initial pair, or the candidate and the
  negated token of one operand: equality holds for the surface that \<open>i_surf\<close> names.
\<close>

theorem distance_within_tolerance:
  assumes "0 < FP_PRECISION" and "0 < INFTY"
    and "\<forall>t\<in>set (rpn c). t < OP_UNION \<longrightarrow> 0 < candidate surface_distance r u on_surface t"
  shows "(\<forall>t\<in>set (rpn c). t < OP_UNION \<longrightarrow>
            fst (distance INFTY FP_PRECISION surface_distance c r u on_surface)
              \<le> candidate surface_distance r u on_surface t \<or>
            \<bar>candidate surface_distance r u on_surface t -
               fst (distance INFTY FP_PRECISION surface_distance c r u on_surface)\<bar>
              / fst (distance INFTY FP_PRECISION surface_distance c r u on_surface)
              < FP_PRECISION) \<and>
         (distance INFTY FP_PRECISION surface_distance c r u on_surface = (INFTY, 2147483647) \<or>
          (\<exists>t\<in>set (rpn c). t < OP_UNION \<and>
             distance INFTY FP_PRECISION surface_distance c r u on_surface =
               (candidate surface_distance r u on_surface t, - t)))"
proof -
  obtain m i where res: "distance INFTY FP_PRECISION surface_distance c r u on_surface = (m, i)"
    by (cases "distance INFTY FP_PRECISION surface_distance c r u on_surface")
  then have loop: "distance_loop FP_PRECISION surface_distance (rpn c) r u on_surface
      (INFTY, 2147483647) = (m, i)"
    by (simp add: distance_def)
  from distance_loop_bound [OF assms(1,2,3) loop] distance_loop_source [OF loop] res
  show ?thesis by auto
qed

text \<open>
  On the cell of the region \<open>1 2\<close> whose second surface is closer than the first by
  \<open>2\<^sup>-\<^sup>5\<^sup>2\<close>: the distance returned is that of the first surface, and it exceeds
  that of the second by less than the tolerance.
\<close>

theorem distance_within_tolerance_witness:
  "distance DBL_MAX eps14 (\<lambda>k r u coincident. if k = 0 then 1 else 1 - 1 / 2 ^ 52)
     (cell0\<lparr>rpn := [1, 2, OP_INTERSECTION]\<rparr>) () () 0 =
     (candidate (\<lambda>k r u coincident. if k = (0::int) then 1 else 1 - 1 / 2 ^ 52) () () 0 1, - 1) \<and>
   candidate (\<lambda>k r u coincident. if k = (0::int) then 1 else 1 - 1 / 2 ^ 52) () () 0 1 = 1 \<and>
   \<bar>candidate (\<lambda>k r u coincident. if k = (0::int) then 1 else 1 - 1 / 2 ^ 52) () () 0 2 - 1\<bar> / 1
     < eps14"
  using distance_within_tolerance
    [of eps14 DBL_MAX "cell0\<lparr>rpn := [1, 2, OP_INTERSECTION]\<rparr>"
        "\<lambda>k r u coincident. if k = 0 then 1 else 1 - 1 / 2 ^ 52" "()" "()" 0]
  by (simp add: distance_def distance_loop_step displaces_def relative_gap_def candidate_def
      DBL_MAX_def eps14_def op_codes)

text \<open>
  C6, as the claim states it, fails on the cell of the region \<open>1 2\<close> whose first surface
  is at distance 1 and whose second is closer by \<open>2\<^sup>-\<^sup>5\<^sup>2\<close>: the second candidate is
  smaller, but by less than the tolerance \<open>1e-14\<close>, so that the distance returned, 1, is
  above the distance of the second surface. All the numbers are doubles, and their
  difference and quotient are exact in double arithmetic.
\<close>

theorem distance_above_candidate:
  "distance DBL_MAX eps14 (\<lambda>k r u coincident. if k = 0 then 1 else 1 - 1 / 2 ^ 52)
     (cell0\<lparr>rpn := [1, 2, OP_INTERSECTION]\<rparr>) () () 0 = (1, - 1) \<and>
   \<not> (1::real) \<le> (\<lambda>k r u coincident. if k = (0::int) then 1 else 1 - 1 / 2 ^ 52) 1 () () False"
  by (simp add: distance_def distance_loop_step displaces_def relative_gap_def candidate_def
      DBL_MAX_def eps14_def op_codes)

section \<open>Properties of the C API\<close>

lemma push_materials_valid:
  "list_all (valid_material n_mat) indices \<Longrightarrow>
   push_materials n_mat indices mat = (True, mat @ map to_internal indices)"
  by (induction indices arbitrary: mat) (auto simp: valid_material_def to_internal_def)

lemma push_materials_invalid:
  "\<not> list_all (valid_material n_mat) indices \<Longrightarrow>
   fst (push_materials n_mat indices mat) = False"
  by (induction indices arbitrary: mat) (auto simp: valid_material_def)

lemma set_fill_valid:
  assumes "1 \<le> index" and "index \<le> int (length (global_cells g))"
    and "list_all (valid_material (n_materials g)) (take (nat n) indices)"
  shows "openmc_cell_set_fill g index FILL_MATERIAL n indices =
     (0, g\<lparr>global_cells := (global_cells g)[nat (index - 1) :=
          (global_cells g ! nat (index - 1))
            \<lparr>fill_type := FILL_MATERIAL,
              material := map to_internal (take (nat n) indices)\<rparr>]\<rparr>)"
  using assms push_materials_valid [OF assms(3), of "[]"]
  by (simp add: openmc_cell_set_fill_def Let_def)

lemma set_fill_invalid:
  assumes "\<not> list_all (valid_material (n_materials g)) (take (nat n) indices)"
  shows "fst (openmc_cell_set_fill g index FILL_MATERIAL n indices) = OPENMC_E_OUT_OF_BOUNDS"
  using push_materials_invalid [OF assms, of "[]"]
  by (auto simp: openmc_cell_set_fill_def Let_def split: prod.splits bool.splits)

lemma cell_index_out_of_bounds:
  assumes "\<not> (1 \<le> index \<and> index \<le> int (length (global_cells g)))"
  shows "fst (openmc_cell_get_fill g index) = OPENMC_E_OUT_OF_BOUNDS \<and>
    fst (openmc_cell_set_fill g index type n indices) = OPENMC_E_OUT_OF_BOUNDS \<and>
    fst (openmc_cell_set_temperature K_BOLTZMANN g index T inst) = OPENMC_E_OUT_OF_BOUNDS"
  using assms
  by (auto simp: openmc_cell_get_fill_def openmc_cell_set_fill_def
      openmc_cell_set_temperature_def)

lemma get_fill_valid:
  assumes "1 \<le> index" and "index \<le> int (length (global_cells g))"
  shows "openmc_cell_get_fill g index =
     (0, Some (fill_view (global_cells g ! nat (index - 1))), g)"
  using assms by (simp add: openmc_cell_get_fill_def fill_view_def Let_def)

lemma set_temperature_instance:
  assumes "1 \<le> index" and "index \<le> int (length (global_cells g))"
  shows "openmc_cell_set_temperature K_BOLTZMANN g index T (Some i) =
     (if 0 \<le> i \<and> i < int (length (sqrtkT (global_cells g ! nat (index - 1))))
      then (0, g\<lparr>global_cells := (global_cells g)[nat (index - 1) :=
                 (global_cells g ! nat (index - 1))
                   \<lparr>sqrtkT := (sqrtkT (global_cells g ! nat (index - 1)))
                      [nat i := std_sqrt (K_BOLTZMANN * T)]\<rparr>]\<rparr>)
      else (OPENMC_E_OUT_OF_BOUNDS,
            g\<lparr>openmc_err_msg := ''Distribcell instance is out of bounds.''\<rparr>))"
  using assms by (simp add: openmc_cell_set_temperature_def Let_def)

lemma set_temperature_all_instances:
  assumes "1 \<le> index" and "index \<le> int (length (global_cells g))"
  shows "openmc_cell_set_temperature K_BOLTZMANN g index T None =
     (0, g\<lparr>global_cells := (global_cells g)[nat (index - 1) :=
          (global_cells g ! nat (index - 1))
            \<lparr>sqrtkT := map (\<lambda>T'. std_sqrt (K_BOLTZMANN * T))
               (sqrtkT (global_cells g ! nat (index - 1)))\<rparr>]\<rparr>)"
  using assms by (simp add: openmc_cell_set_temperature_def Let_def)

lemma set_fill_other_kind:
  assumes "1 \<le> index" and "index \<le> int (length (global_cells g))" and "type \<noteq> FILL_MATERIAL"
  shows "openmc_cell_set_fill g index type n indices =
     (0, g\<lparr>global_cells := (global_cells g)[nat (index - 1) :=
          (global_cells g ! nat (index - 1))
            \<lparr>fill_type := (if type = FILL_UNIVERSE then FILL_UNIVERSE else FILL_LATTICE)\<rparr>]\<rparr>)"
  using assms by (simp add: openmc_cell_set_fill_def Let_def)

text \<open>
  A call of \<open>openmc_cell_set_temperature\<close> that returns an error code leaves every cell
  as it was.
\<close>

lemma set_temperature_error_keeps_cells:
  "openmc_cell_set_temperature K_BOLTZMANN g index T inst = (code, g') \<Longrightarrow> code \<noteq> 0 \<Longrightarrow>
   global_cells g' = global_cells g"
  by (auto simp: openmc_cell_set_temperature_def Let_def split: if_splits option.splits)

text \<open>
  C4. A cell filled with a universe, in a geometry of one material: the call
  \<open>openmc_cell_set_fill(1, FILL_MATERIAL, 2, {1, 5})\<close> returns the error code for the
  second index, after it has set the fill kind of the cell to \<open>MATERIAL\<close> and put the
  first material into its list.
\<close>

theorem set_fill_partial_update:
  "openmc_cell_set_fill
     (geometry0\<lparr>global_cells := [cell0\<lparr>fill_type := FILL_UNIVERSE, material := []\<rparr>]\<rparr>)
     1 FILL_MATERIAL 2 [1, 5] =
   (OPENMC_E_OUT_OF_BOUNDS,
    geometry0\<lparr>global_cells := [cell0\<lparr>fill_type := FILL_MATERIAL, material := [0]\<rparr>],
              openmc_err_msg := ''Index in materials array is out of bounds.''\<rparr>)"
  by (simp add: openmc_cell_set_fill_def geometry0_def cell0_def FILL_MATERIAL_def
      FILL_UNIVERSE_def MATERIAL_VOID_def numeral_2_eq_2)

text \<open>
  C5, as the code has it. A call of \<open>openmc_cell_set_fill\<close> with a valid cell index and a
  kind other than \<open>MATERIAL\<close> succeeds and changes the fill kind of the cell, to
  \<open>UNIVERSE\<close> or to \<open>LATTICE\<close>, and nothing else: the material list of the cell stays as
  it was.
\<close>

theorem set_fill_changes_kind_only:
  assumes "1 \<le> index" and "index \<le> int (length (global_cells g))" and "type \<noteq> FILL_MATERIAL"
  shows "openmc_cell_set_fill g index type n indices =
           (0, g\<lparr>global_cells := (global_cells g)[nat (index - 1) :=
                  (global_cells g ! nat (index - 1))
                    \<lparr>fill_type :=
                       (if type = FILL_UNIVERSE then FILL_UNIVERSE else FILL_LATTICE)\<rparr>]\<rparr>)"
  using assms by (simp add: openmc_cell_set_fill_def Let_def)

theorem set_fill_changes_kind_only_witness:
  "openmc_cell_set_fill geometry0 1 FILL_LATTICE 0 [] =
     (0, geometry0\<lparr>global_cells := [cell0\<lparr>fill_type := FILL_LATTICE\<rparr>]\<rparr>) \<and>
   material (cell0\<lparr>fill_type := FILL_LATTICE\<rparr>) = material cell0"
  using set_fill_changes_kind_only [of 1 geometry0 FILL_LATTICE 0 "[]"]
  by (simp add: geometry0_def FILL_LATTICE_def FILL_MATERIAL_def FILL_UNIVERSE_def)

text \<open>
  C5, as the claim states it, fails on a cell filled with the material 0: the call
  \<open>openmc_cell_set_fill(1, FILL_UNIVERSE, 0, {})\<close> succeeds, the cell is filled with a
  universe, and its material list still holds the material.
\<close>

theorem set_fill_material_not_cleared:
  "fill_type cell0 = FILL_MATERIAL \<and>
   openmc_cell_set_fill geometry0 1 FILL_UNIVERSE 0 [] =
     (0, geometry0\<lparr>global_cells := [cell0\<lparr>fill_type := FILL_UNIVERSE\<rparr>]\<rparr>) \<and>
   material (cell0\<lparr>fill_type := FILL_UNIVERSE\<rparr>) = [0]"
  by (simp add: openmc_cell_set_fill_def geometry0_def cell0_def FILL_MATERIAL_def
      FILL_UNIVERSE_def)

text \<open>
  C9, as the code has it. The cell index of the three functions is 1-based: outside
  \<open>1, \<dots>, global_cells.size()\<close> each of them returns the error code, inside it each of
  them works on the cell at the index less one, on every path: \<open>openmc_cell_get_fill\<close>,
  \<open>openmc_cell_set_fill\<close> for the kind \<open>MATERIAL\<close> and for the other kinds, and
  \<open>openmc_cell_set_temperature\<close> with an instance and without one. A material index
  passed to \<open>openmc_cell_set_fill\<close> is 1-based and stored less one, the void sentinel is
  stored as it is, and any other value makes the call return the error code. The
  instance passed to \<open>openmc_cell_set_temperature\<close> is 0-based: from 0 to one below the
  number of temperatures it is the position written, outside this range the call
  returns the error code. The temperature written is \<open>std::sqrt(K_BOLTZMANN * T)\<close>.
\<close>

theorem admin_index_conventions:
  "(\<not> (1 \<le> index \<and> index \<le> int (length (global_cells g))) \<longrightarrow>
      fst (openmc_cell_get_fill g index) = OPENMC_E_OUT_OF_BOUNDS \<and>
      fst (openmc_cell_set_fill g index type n indices) = OPENMC_E_OUT_OF_BOUNDS \<and>
      fst (openmc_cell_set_temperature K_BOLTZMANN g index T inst) = OPENMC_E_OUT_OF_BOUNDS) \<and>
   (1 \<le> index \<and> index \<le> int (length (global_cells g)) \<longrightarrow>
      openmc_cell_get_fill g index =
        (0, Some (fill_view (global_cells g ! nat (index - 1))), g) \<and>
      (type \<noteq> FILL_MATERIAL \<longrightarrow>
         openmc_cell_set_fill g index type n indices =
           (0, g\<lparr>global_cells := (global_cells g)[nat (index - 1) :=
                (global_cells g ! nat (index - 1))
                  \<lparr>fill_type :=
                     (if type = FILL_UNIVERSE then FILL_UNIVERSE else FILL_LATTICE)\<rparr>]\<rparr>)) \<and>
      (list_all (valid_material (n_materials g)) (take (nat n) indices) \<longrightarrow>
         openmc_cell_set_fill g index FILL_MATERIAL n indices =
           (0, g\<lparr>global_cells := (global_cells g)[nat (index - 1) :=
                (global_cells g ! nat (index - 1))
                  \<lparr>fill_type := FILL_MATERIAL,
                    material := map to_internal (take (nat n) indices)\<rparr>]\<rparr>)) \<and>
      (\<not> list_all (valid_material (n_materials g)) (take (nat n) indices) \<longrightarrow>
         fst (openmc_cell_set_fill g index FILL_MATERIAL n indices) = OPENMC_E_OUT_OF_BOUNDS) \<and>
      openmc_cell_set_temperature K_BOLTZMANN g index T None =
        (0, g\<lparr>global_cells := (global_cells g)[nat (index - 1) :=
             (global_cells g ! nat (index - 1))
               \<lparr>sqrtkT := map (\<lambda>T'. std_sqrt (K_BOLTZMANN * T))
                  (sqrtkT (global_cells g ! nat (index - 1)))\<rparr>]\<rparr>) \<and>
      (0 \<le> i \<and> i < int (length (sqrtkT (global_cells g ! nat (index - 1)))) \<longrightarrow>
         openmc_cell_set_temperature K_BOLTZMANN g index T (Some i) =
           (0, g\<lparr>global_cells := (global_cells g)[nat (index - 1) :=
                (global_cells g ! nat (index - 1))
                  \<lparr>sqrtkT := (sqrtkT (global_cells g ! nat (index - 1)))
                     [nat i := std_sqrt (K_BOLTZMANN * T)]\<rparr>]\<rparr>)) \<and>
      (\<not> (0 \<le> i \<and> i < int (length (sqrtkT (global_cells g ! nat (index - 1))))) \<longrightarrow>
         openmc_cell_set_temperature K_BOLTZMANN g index T (Some i) =
           (OPENMC_E_OUT_OF_BOUNDS,
            g\<lparr>openmc_err_msg := ''Distribcell instance is out of bounds.''\<rparr>)))"
proof (intro conjI impI)
  assume out: "\<not> (1 \<le> index \<and> index \<le> int (length (global_cells g)))"
  from cell_index_out_of_bounds [OF out]
  show "fst (openmc_cell_get_fill g index) = OPENMC_E_OUT_OF_BOUNDS"
    and "fst (openmc_cell_set_fill g index type n indices) = OPENMC_E_OUT_OF_BOUNDS"
    and "fst (openmc_cell_set_temperature K_BOLTZMANN g index T inst) = OPENMC_E_OUT_OF_BOUNDS"
    by simp_all
next
  assume "1 \<le> index \<and> index \<le> int (length (global_cells g))"
  then show "openmc_cell_get_fill g index =
      (0, Some (fill_view (global_cells g ! nat (index - 1))), g)"
    by (intro get_fill_valid) simp_all
next
  assume "1 \<le> index \<and> index \<le> int (length (global_cells g))" and "type \<noteq> FILL_MATERIAL"
  then show "openmc_cell_set_fill g index type n indices =
      (0, g\<lparr>global_cells := (global_cells g)[nat (index - 1) :=
           (global_cells g ! nat (index - 1))
             \<lparr>fill_type :=
                (if type = FILL_UNIVERSE then FILL_UNIVERSE else FILL_LATTICE)\<rparr>]\<rparr>)"
    by (intro set_fill_other_kind) simp_all
next
  assume "1 \<le> index \<and> index \<le> int (length (global_cells g))"
    and "list_all (valid_material (n_materials g)) (take (nat n) indices)"
  then show "openmc_cell_set_fill g index FILL_MATERIAL n indices =
      (0, g\<lparr>global_cells := (global_cells g)[nat (index - 1) :=
           (global_cells g ! nat (index - 1))
             \<lparr>fill_type := FILL_MATERIAL,
               material := map to_internal (take (nat n) indices)\<rparr>]\<rparr>)"
    by (intro set_fill_valid) simp_all
next
  assume "\<not> list_all (valid_material (n_materials g)) (take (nat n) indices)"
  then show "fst (openmc_cell_set_fill g index FILL_MATERIAL n indices) =
      OPENMC_E_OUT_OF_BOUNDS"
    by (rule set_fill_invalid)
next
  assume "1 \<le> index \<and> index \<le> int (length (global_cells g))"
  then show "openmc_cell_set_temperature K_BOLTZMANN g index T None =
      (0, g\<lparr>global_cells := (global_cells g)[nat (index - 1) :=
           (global_cells g ! nat (index - 1))
             \<lparr>sqrtkT := map (\<lambda>T'. std_sqrt (K_BOLTZMANN * T))
                (sqrtkT (global_cells g ! nat (index - 1)))\<rparr>]\<rparr>)"
    by (intro set_temperature_all_instances) simp_all
next
  assume "1 \<le> index \<and> index \<le> int (length (global_cells g))"
    and "0 \<le> i \<and> i < int (length (sqrtkT (global_cells g ! nat (index - 1))))"
  then show "openmc_cell_set_temperature K_BOLTZMANN g index T (Some i) =
      (0, g\<lparr>global_cells := (global_cells g)[nat (index - 1) :=
           (global_cells g ! nat (index - 1))
             \<lparr>sqrtkT := (sqrtkT (global_cells g ! nat (index - 1)))
                [nat i := std_sqrt (K_BOLTZMANN * T)]\<rparr>]\<rparr>)"
    by (simp add: set_temperature_instance)
next
  assume "1 \<le> index \<and> index \<le> int (length (global_cells g))"
    and "\<not> (0 \<le> i \<and> i < int (length (sqrtkT (global_cells g ! nat (index - 1)))))"
  then show "openmc_cell_set_temperature K_BOLTZMANN g index T (Some i) =
      (OPENMC_E_OUT_OF_BOUNDS,
       g\<lparr>openmc_err_msg := ''Distribcell instance is out of bounds.''\<rparr>)"
    by (auto simp: set_temperature_instance)
qed

text \<open>
  In the geometry of one cell and one material: the cell index 1 is valid and 2 is
  not; the material indices 1 and void are stored as 0 and void; the material index 2
  is refused; a lattice fill changes the kind of the cell at index 1; the instance 0 is
  written, and without an instance every temperature is; a negative temperature is
  stored as not-a-number.
\<close>

theorem admin_index_conventions_witness:
  "fst (openmc_cell_get_fill geometry0 2) = OPENMC_E_OUT_OF_BOUNDS \<and>
   openmc_cell_get_fill geometry0 1 = (0, Some (FILL_MATERIAL, [0], 1), geometry0) \<and>
   openmc_cell_set_fill geometry0 1 FILL_MATERIAL 2 [1, MATERIAL_VOID] =
     (0, geometry0\<lparr>global_cells := [cell0\<lparr>material := [0, MATERIAL_VOID]\<rparr>]\<rparr>) \<and>
   fst (openmc_cell_set_fill geometry0 1 FILL_MATERIAL 1 [2]) = OPENMC_E_OUT_OF_BOUNDS \<and>
   openmc_cell_set_fill geometry0 1 FILL_LATTICE 0 [] =
     (0, geometry0\<lparr>global_cells := [cell0\<lparr>fill_type := FILL_LATTICE\<rparr>]\<rparr>) \<and>
   openmc_cell_set_temperature 1 geometry0 1 9 (Some 0) =
     (0, geometry0\<lparr>global_cells := [cell0\<lparr>sqrtkT := [Some 3]\<rparr>]\<rparr>) \<and>
   openmc_cell_set_temperature 1 geometry0 1 9 None =
     (0, geometry0\<lparr>global_cells := [cell0\<lparr>sqrtkT := [Some 3]\<rparr>]\<rparr>) \<and>
   openmc_cell_set_temperature 1 geometry0 1 (- 9) None =
     (0, geometry0\<lparr>global_cells := [cell0\<lparr>sqrtkT := [None]\<rparr>]\<rparr>)"
  using
    admin_index_conventions [of 2 geometry0 FILL_MATERIAL 0 "[]" 1 9 None 0]
    admin_index_conventions [of 1 geometry0 FILL_MATERIAL 2 "[1, MATERIAL_VOID]" 1 9 None 0]
    admin_index_conventions [of 1 geometry0 FILL_MATERIAL 1 "[2]" 1 9 None 0]
    admin_index_conventions [of 1 geometry0 FILL_LATTICE 0 "[]" 1 "- 9" None 0]
  by (simp add: geometry0_def cell0_def fill_view_def valid_material_def to_internal_def
      std_sqrt_def MATERIAL_VOID_def FILL_MATERIAL_def FILL_UNIVERSE_def FILL_LATTICE_def
      numeral_2_eq_2)

text \<open>
  C9, as the claim states it, fails on the instance: for a cell with one temperature
  the instance 0, outside the 1-based range of one element, is accepted and written,
  and the instance 1, inside that range, is refused.
\<close>

theorem instance_is_zero_based:
  "sqrtkT cell0 = [Some 1] \<and>
   openmc_cell_set_temperature 1 geometry0 1 4 (Some 0) =
     (0, geometry0\<lparr>global_cells := [cell0\<lparr>sqrtkT := [Some 2]\<rparr>]\<rparr>) \<and>
   fst (openmc_cell_set_temperature 1 geometry0 1 4 (Some 1)) = OPENMC_E_OUT_OF_BOUNDS"
  by (simp add: openmc_cell_set_temperature_def geometry0_def cell0_def std_sqrt_def)

end
